theory Spec2Isabelle
  imports Main "HOL-Library.Word" "HOL-Library.Multiset"
begin

section \<open>The state IKE_SA_INIT_REQUESTED of charon's IKE_SA (ike_sa_init_requested.c)\<close>

text \<open>
  The initiator has sent its IKE_SA_INIT request and waits for the reply.
  \<^verbatim>\<open>process_message\<close> consumes the reply, builds the IKE_AUTH request and
  hands the session over to the state IKE_AUTH_REQUESTED. The C function works on
  objects behind pointers (the state object \<^verbatim>\<open>this\<close>, the session
  \<^verbatim>\<open>this->ike_sa\<close>, the global send queue, the logger); the embedding
  passes them around as one record and returns the record updated together with
  the \<^verbatim>\<open>status_t\<close> the function returns.
\<close>

subsection \<open>Types of the headers\<close>

text \<open>
  \<^verbatim>\<open>status_t\<close>: the enum is declared in a header that is not among the
  sources. The function names two of its values, \<^verbatim>\<open>SUCCESS\<close> and
  \<^verbatim>\<open>FAILED\<close>; every other value is kept by its number.
\<close>

datatype status_t = SUCCESS | FAILED | Status_code nat

text \<open>
  \<^verbatim>\<open>exchange_type_t\<close>, \<^verbatim>\<open>payload_type_t\<close> and
  \<^verbatim>\<open>ike_sa_state_t\<close>: the values the file names, the others by number.
  Modelled from the spec: the states of the session are IKE_SA_INIT_REQUESTED,
  IKE_SA_INIT_RESPONDED, IKE_AUTH_REQUESTED, IKE_AUTH_RESPONDED and ESTABLISHED.
\<close>

datatype exchange_type_t = IKE_SA_INIT | IKE_AUTH | Exchange_type nat

datatype payload_type_t =
    SECURITY_ASSOCIATION
  | KEY_EXCHANGE
  | NONCE
  | ID_INITIATOR
  | ID_RESPONDER
  | AUTHENTICATION
  | Payload_type nat

datatype ike_sa_state_t =
    IKE_SA_INIT_REQUESTED
  | IKE_SA_INIT_RESPONDED
  | IKE_AUTH_REQUESTED
  | IKE_AUTH_RESPONDED
  | ESTABLISHED

datatype id_type_t = ID_RFC822_ADDR | Id_type nat

datatype auth_method_t = RSA_DIGITAL_SIGNATURE | Auth_method nat

text \<open>
  \<^verbatim>\<open>chunk_t\<close> is a pointer with a length. A pointer is NULL, the address of
  an allocated buffer, or the address of a string literal of the program. The
  bytes the chunk spans are carried with it (\<open>octets\<close>); its \<^verbatim>\<open>len\<close>
  is their number.
\<close>

datatype pointer_t = NULL | Allocated nat | String_literal string

record chunk_t =
  ptr :: pointer_t
  octets :: string

definition len :: "chunk_t \<Rightarrow> nat" where
  "len c = length (octets c)"

definition CHUNK_INITIALIZER :: chunk_t where
  "CHUNK_INITIALIZER = \<lparr>ptr = NULL, octets = []\<rparr>"

text \<open>
  Modelled from the spec: a proposal is one combination of transform IDs
  (encryption, integrity, pseudo-random function, Diffie-Hellman group); the
  struct \<^verbatim>\<open>ike_proposal_t\<close> is declared outside the sources.
\<close>

record ike_proposal_t =
  encryption_algorithm :: nat
  integrity_algorithm :: nat
  pseudo_random_function :: nat
  diffie_hellman_group :: nat

text \<open>
  A payload of a message. For the three payloads the state reads, the constructor
  carries what the payload's getter hands out: \<^verbatim>\<open>get_ike_proposals\<close> its
  status and the array of proposals (\<^verbatim>\<open>proposal_count\<close> is the length),
  \<^verbatim>\<open>get_key_exchange_data\<close> and \<^verbatim>\<open>get_nonce\<close> a chunk. The ID and
  AUTH payloads are the ones this state builds; any other payload is kept by the
  number of its type.
\<close>

datatype payload_t =
    Sa_payload status_t "ike_proposal_t list"
  | Ke_payload chunk_t
  | Nonce_payload chunk_t
  | Id_payload bool id_type_t chunk_t
  | Auth_payload auth_method_t chunk_t
  | Other_payload nat

fun get_type :: "payload_t \<Rightarrow> payload_type_t" where
  "get_type (Sa_payload status ike_proposals) = SECURITY_ASSOCIATION"
| "get_type (Ke_payload key_exchange_data) = KEY_EXCHANGE"
| "get_type (Nonce_payload nonce) = NONCE"
| "get_type (Id_payload is_initiator id_type id_data) =
     (if is_initiator then ID_INITIATOR else ID_RESPONDER)"
| "get_type (Auth_payload auth_method auth_data) = AUTHENTICATION"
| "get_type (Other_payload n) = Payload_type n"

text \<open>
  \<^verbatim>\<open>message_t\<close>, by what its getters return; \<open>get_payloads\<close> is the
  sequence the payload iterator walks through.
\<close>

record message_t =
  get_exchange_type :: exchange_type_t
  get_request :: bool
  get_responder_spi :: "64 word"
  get_payloads :: "payload_t list"

datatype packet_t = Packet string

record diffie_hellman_t =
  other_public_value :: "chunk_t option"

text \<open>
  Modelled from the spec: the session (\<^verbatim>\<open>protected_ike_sa_t\<close>, implemented
  outside the sources) has an identifier with the SPI of the responder (zero until
  the first reply), exactly one current state, the transform objects instantiated
  from the selected proposal, the key material that \<^verbatim>\<open>compute_secrets\<close>
  derives from the shared secret and the two nonces (kept here as these three
  arguments), and the last requested message. The crypter and the signer of the
  initiator are transform objects: they are given by the proposal and the key
  material.
\<close>

record ike_sa_id_t =
  initiator_spi :: "64 word"
  responder_spi :: "64 word"

record protected_ike_sa_t =
  ike_sa_id :: ike_sa_id_t
  current_state :: ike_sa_state_t
  transforms :: "ike_proposal_t option"
  secrets :: "(chunk_t \<times> chunk_t \<times> chunk_t) option"
  last_requested_message :: "message_t option"

datatype crypter_t = Crypter "ike_proposal_t option" "(chunk_t \<times> chunk_t \<times> chunk_t) option"

datatype signer_t = Signer "ike_proposal_t option" "(chunk_t \<times> chunk_t \<times> chunk_t) option"

definition get_crypter_initiator :: "protected_ike_sa_t \<Rightarrow> crypter_t" where
  "get_crypter_initiator sa = Crypter (transforms sa) (secrets sa)"

definition get_signer_initiator :: "protected_ike_sa_t \<Rightarrow> signer_t" where
  "get_signer_initiator sa = Signer (transforms sa) (secrets sa)"

text \<open>The private data of the state object (\<^verbatim>\<open>private_ike_sa_init_requested_t\<close>).\<close>

record private_ike_sa_init_requested_t =
  diffie_hellman :: diffie_hellman_t
  shared_secret :: chunk_t
  sent_nonce :: chunk_t
  received_nonce :: chunk_t
  dh_group_priority :: "16 word"

subsection \<open>Collaborators and effects\<close>

text \<open>
  The calls whose outcome is decided outside the file are parameters: each gives
  the status (and the value written through the out-pointer) as a function of the
  arguments of the call.
\<close>

record collaborators =
  parse_body :: "message_t \<Rightarrow> status_t"
  select_proposal :: "ike_proposal_t list \<Rightarrow> nat \<Rightarrow> status_t \<times> ike_proposal_t"
  create_transforms_from_proposal :: "ike_proposal_t \<Rightarrow> status_t"
  get_shared_secret :: "diffie_hellman_t \<Rightarrow> status_t \<times> chunk_t"
  generate :: "message_t \<Rightarrow> crypter_t \<Rightarrow> signer_t \<Rightarrow> status_t \<times> packet_t"
  set_last_requested_message :: "message_t \<Rightarrow> status_t"

text \<open>
  The calls that act on an object outside the state (the allocator, the iterator,
  the messages, the Diffie-Hellman object, the session, the send queue), in the
  order in which they are made.
\<close>

datatype event =
    Parse_body status_t
  | Set_responder_spi "64 word"
  | Get_payload_iterator
  | Iterator_destroy
  | Get_ike_proposals status_t
  | Select_proposal status_t
  | Create_transforms_from_proposal status_t
  | Allocator_free_proposals "ike_proposal_t list"
  | Allocator_free pointer_t
  | Allocator_free_this
  | Set_other_public_value chunk_t
  | Get_shared_secret status_t
  | Compute_secrets chunk_t chunk_t chunk_t
  | Build_message exchange_type_t bool
  | Generate status_t
  | Send_queue_add packet_t
  | Ike_auth_requested_create
  | Set_last_requested_message status_t
  | State_destroy ike_sa_state_t
  | Message_destroy message_t
  | Set_new_state ike_sa_state_t
  | Diffie_hellman_destroy

text \<open>
  Everything \<^verbatim>\<open>process_message\<close> reads and writes: the state object, the
  session it is assigned to, the send queue of the daemon, the lines given to the
  logger and the calls made so far. A line of the log is kept as its level and its
  format string; the arguments of the format are names looked up in mapping tables
  that are not among the sources.
\<close>

record world =
  this :: private_ike_sa_init_requested_t
  ike_sa :: protected_ike_sa_t
  send_queue :: "packet_t list"
  logger :: "(string \<times> string) list"
  trace :: "event list"

definition logger_log :: "string \<Rightarrow> string \<Rightarrow> world \<Rightarrow> world" where
  "logger_log level format w = w\<lparr>logger := logger w @ [(level, format)]\<rparr>"

definition logger_log_chunk :: "string \<Rightarrow> string \<Rightarrow> world \<Rightarrow> world" where
  "logger_log_chunk level label w = w\<lparr>logger := logger w @ [(level, label)]\<rparr>"

definition emit :: "event \<Rightarrow> world \<Rightarrow> world" where
  "emit e w = w\<lparr>trace := trace w @ [e]\<rparr>"

definition allocator_free :: "pointer_t \<Rightarrow> world \<Rightarrow> world" where
  "allocator_free p w = emit (Allocator_free p) w"

text \<open>
  Modelled from the spec: the methods of the session, of the Diffie-Hellman object,
  of a message and of the send queue are implemented outside the sources. Each is
  given the effect the spec names for it: \<^verbatim>\<open>set_responder_spi\<close> completes
  the identifier of the session, \<^verbatim>\<open>set_other_public_value\<close> feeds the public
  value of the peer into the Diffie-Hellman object,
  \<^verbatim>\<open>create_transforms_from_proposal\<close> stores the transforms on the session,
  \<^verbatim>\<open>compute_secrets\<close> derives the key material, \<^verbatim>\<open>build_message\<close>
  makes an empty message of the session, \<^verbatim>\<open>add_payload\<close> appends to it,
  the send queue appends the packet, \<^verbatim>\<open>set_last_requested_message\<close> records
  the message and \<^verbatim>\<open>set_new_state\<close> installs the state. A call that
  returns a failure leaves the session as it was. For the two calls whose status
  is a parameter, the status is passed in.
\<close>

definition set_responder_spi :: "64 word \<Rightarrow> world \<Rightarrow> world" where
  "set_responder_spi spi w =
     emit (Set_responder_spi spi)
       (w\<lparr>ike_sa := (ike_sa w)\<lparr>ike_sa_id := (ike_sa_id (ike_sa w))\<lparr>responder_spi := spi\<rparr>\<rparr>\<rparr>)"

definition set_other_public_value :: "chunk_t \<Rightarrow> world \<Rightarrow> world" where
  "set_other_public_value public_value w =
     emit (Set_other_public_value public_value)
       (w\<lparr>this := (this w)\<lparr>diffie_hellman :=
          (diffie_hellman (this w))\<lparr>other_public_value := Some public_value\<rparr>\<rparr>\<rparr>)"

definition store_transforms :: "status_t \<Rightarrow> ike_proposal_t \<Rightarrow> world \<Rightarrow> world" where
  "store_transforms status proposal w =
     emit (Create_transforms_from_proposal status)
       (if status = SUCCESS
        then w\<lparr>ike_sa := (ike_sa w)\<lparr>transforms := Some proposal\<rparr>\<rparr>
        else w)"

definition compute_secrets :: "chunk_t \<Rightarrow> chunk_t \<Rightarrow> chunk_t \<Rightarrow> world \<Rightarrow> world" where
  "compute_secrets secret nonce_i nonce_r w =
     emit (Compute_secrets secret nonce_i nonce_r)
       (w\<lparr>ike_sa := (ike_sa w)\<lparr>secrets := Some (secret, nonce_i, nonce_r)\<rparr>\<rparr>)"

definition build_message :: "exchange_type_t \<Rightarrow> bool \<Rightarrow> world \<Rightarrow> message_t \<times> world" where
  "build_message exchange_type is_request w =
     (\<lparr>get_exchange_type = exchange_type, get_request = is_request,
       get_responder_spi = responder_spi (ike_sa_id (ike_sa w)), get_payloads = []\<rparr>,
      emit (Build_message exchange_type is_request) w)"

definition add_payload :: "payload_t \<Rightarrow> message_t \<Rightarrow> message_t" where
  "add_payload payload message = message\<lparr>get_payloads := get_payloads message @ [payload]\<rparr>"

definition send_queue_add :: "packet_t \<Rightarrow> world \<Rightarrow> world" where
  "send_queue_add packet w = emit (Send_queue_add packet) (w\<lparr>send_queue := send_queue w @ [packet]\<rparr>)"

definition store_last_requested_message :: "status_t \<Rightarrow> message_t \<Rightarrow> world \<Rightarrow> world" where
  "store_last_requested_message status message w =
     emit (Set_last_requested_message status)
       (if status = SUCCESS
        then w\<lparr>ike_sa := (ike_sa w)\<lparr>last_requested_message := Some message\<rparr>\<rparr>
        else w)"

definition set_new_state :: "ike_sa_state_t \<Rightarrow> world \<Rightarrow> world" where
  "set_new_state state w = emit (Set_new_state state) (w\<lparr>ike_sa := (ike_sa w)\<lparr>current_state := state\<rparr>\<rparr>)"

subsection \<open>The functions of the file\<close>

text \<open>
  The body of the loop over the payloads (the \<^verbatim>\<open>switch\<close> on the type of the
  payload). \<open>Some status\<close> is a \<^verbatim>\<open>return status\<close> from inside the loop,
  \<open>None\<close> a \<^verbatim>\<open>break\<close> out of the switch: the loop goes on.
\<close>

fun process_payload :: "collaborators \<Rightarrow> payload_t \<Rightarrow> world \<Rightarrow> status_t option \<times> world" where
  "process_payload env (Sa_payload get_status ike_proposals) w0 =
     (let w = logger_log ''CONTROL | MORE'' ''Processing payload %s'' w0;
          status = get_status;
          w = emit (Get_ike_proposals status) w
      in if status \<noteq> SUCCESS then
           (let w = logger_log ''ERROR | MORE'' ''SA payload does not contain IKE proposals'' w;
                w = emit Iterator_destroy w
            in (Some status, w))
         else if length ike_proposals \<noteq> 1 then
           (let w = logger_log ''ERROR | MORE'' ''More then one proposal selected!'' w;
                w = emit (Allocator_free_proposals ike_proposals) w;
                w = emit Iterator_destroy w
            in (Some status, w))
         else
           (let w = logger_log ''CONTROL | MOST'' ''Check suggested proposals'' w;
                (status, selected_proposal) = select_proposal env ike_proposals 1;
                w = emit (Select_proposal status) w;
                w = emit (Allocator_free_proposals ike_proposals) w
            in if status \<noteq> SUCCESS then
                 (let w = logger_log ''ERROR | MORE'' ''Selected proposal not a suggested one!'' w;
                      w = emit Iterator_destroy w
                  in (Some status, w))
               else
                 (let status = create_transforms_from_proposal env selected_proposal;
                      w = store_transforms status selected_proposal w
                  in if status \<noteq> SUCCESS then
                       (let w = logger_log ''ERROR | MORE''
                                  ''Transform objects could not be created from selected proposal'' w;
                            w = emit Iterator_destroy w
                        in (Some status, w))
                     else (None, w))))"
| "process_payload env (Ke_payload key_exchange_data) w0 =
     (let w = logger_log ''CONTROL | MORE'' ''Processing payload %s'' w0;
          w = set_other_public_value key_exchange_data w
      in (None, w))"
| "process_payload env (Nonce_payload nonce) w0 =
     (let w = logger_log ''CONTROL | MORE'' ''Processing payload %s'' w0;
          w = allocator_free (ptr (received_nonce (this w))) w;
          w = w\<lparr>this := (this w)\<lparr>received_nonce := CHUNK_INITIALIZER\<rparr>\<rparr>;
          w = w\<lparr>this := (this w)\<lparr>received_nonce := nonce\<rparr>\<rparr>
      in (None, w))"
| "process_payload env payload w0 =
     (let w = logger_log ''CONTROL | MORE'' ''Processing payload %s'' w0;
          w = logger_log ''ERROR'' ''Payload type not supported!!!!'' w;
          w = emit Iterator_destroy w
      in (Some FAILED, w))"

text \<open>
  The loop \<^verbatim>\<open>while (payloads->has_next(payloads))\<close>: the payloads in the order
  of the message, until one of them returns.
\<close>

fun process_payloads :: "collaborators \<Rightarrow> payload_t list \<Rightarrow> world \<Rightarrow> status_t option \<times> world" where
  "process_payloads env [] w = (None, w)"
| "process_payloads env (payload # rest) w =
     (case process_payload env payload w of
        (Some status, w') \<Rightarrow> (Some status, w')
      | (None, w') \<Rightarrow> process_payloads env rest w')"

definition build_id_payload :: "world \<Rightarrow> payload_t \<times> world" where
  "build_id_payload w =
     (let email = \<lparr>ptr = String_literal ''moerdi@hsr.ch'',
                    octets = ''moerdi@hsr.ch'' @ [CHR 0x00]\<rparr>;
          w = logger_log_chunk ''CONTROL'' ''Moerdi'' w
      in (Id_payload True ID_RFC822_ADDR email, w))"

definition build_auth_payload :: "world \<Rightarrow> payload_t \<times> world" where
  "build_auth_payload w =
     (let auth_data = \<lparr>ptr = String_literal ''this is the key'', octets = ''this is the key''\<rparr>;
          w = logger_log_chunk ''CONTROL'' ''Auth Data'' w
      in (Auth_payload RSA_DIGITAL_SIGNATURE auth_data, w))"

definition build_ike_auth_request :: "world \<Rightarrow> message_t \<times> world" where
  "build_ike_auth_request w0 =
     (let w = logger_log ''CONTROL | MOST'' ''Going to build empty message'' w0;
          (message, w) = build_message IKE_AUTH True w;
          (payload, w) = build_id_payload w;
          w = logger_log ''CONTROL | MOST'' ''add ID payload to message'' w;
          message = add_payload payload message;
          (payload, w) = build_auth_payload w;
          w = logger_log ''CONTROL | MOST'' ''add AUTH payload to message'' w;
          message = add_payload payload message
      in (message, w))"

definition get_state :: "private_ike_sa_init_requested_t \<Rightarrow> ike_sa_state_t" where
  "get_state st = IKE_SA_INIT_REQUESTED"

definition destroy_after_state_change :: "world \<Rightarrow> world" where
  "destroy_after_state_change w0 =
     (let w = logger_log ''CONTROL | MORE''
                ''Going to destroy state of type ike_sa_init_requested_t after state change'' w0;
          w = logger_log ''CONTROL | MOST'' ''Destroy diffie hellman object'' w;
          w = emit Diffie_hellman_destroy w;
          w = allocator_free (ptr (sent_nonce (this w))) w;
          w = allocator_free (ptr (received_nonce (this w))) w;
          w = allocator_free (ptr (shared_secret (this w))) w;
          w = emit Allocator_free_this w
      in w)"

definition destroy :: "world \<Rightarrow> world" where
  "destroy w0 =
     (let w = logger_log ''CONTROL | MORE'' ''Going to destroy state of type ike_sa_init_requested_t'' w0;
          w = logger_log ''CONTROL | MOST'' ''Destroy diffie hellman object'' w;
          w = emit Diffie_hellman_destroy w;
          w = allocator_free (ptr (sent_nonce (this w))) w;
          w = allocator_free (ptr (received_nonce (this w))) w;
          w = allocator_free (ptr (shared_secret (this w))) w;
          w = emit Allocator_free_this w
      in w)"

definition ike_sa_init_requested_create ::
  "16 word \<Rightarrow> diffie_hellman_t \<Rightarrow> chunk_t \<Rightarrow> private_ike_sa_init_requested_t" where
  "ike_sa_init_requested_create priority dh nonce =
     \<lparr>diffie_hellman = dh, shared_secret = CHUNK_INITIALIZER, sent_nonce = nonce,
      received_nonce = CHUNK_INITIALIZER, dh_group_priority = priority\<rparr>"

text \<open>
  \<^verbatim>\<open>process_message\<close> from the end of the loop on (lines 250 to 303 of the
  file): the shared secret, the key material, the IKE_AUTH request, the change of
  state.
\<close>

definition process_message_after_payloads :: "collaborators \<Rightarrow> message_t \<Rightarrow> world \<Rightarrow> status_t \<times> world" where
  "process_message_after_payloads env reply w0 =
     (let w = emit Iterator_destroy w0;
          w = allocator_free (ptr (shared_secret (this w))) w;
          w = w\<lparr>this := (this w)\<lparr>shared_secret := CHUNK_INITIALIZER\<rparr>\<rparr>;
          w = logger_log ''CONTROL | MOST'' ''Retrieve shared secret and store it'' w;
          (status, secret) = get_shared_secret env (diffie_hellman (this w));
          w = emit (Get_shared_secret status) w;
          w = w\<lparr>this := (this w)\<lparr>shared_secret := secret\<rparr>\<rparr>;
          w = logger_log_chunk ''PRIVATE'' ''Shared secret'' w;
          w = compute_secrets (shared_secret (this w)) (sent_nonce (this w)) (received_nonce (this w)) w;
          (request, w) = build_ike_auth_request w;
          w = logger_log ''CONTROL | MOST'' ''generate packet from message'' w;
          (status, packet) = generate env request (get_crypter_initiator (ike_sa w))
                               (get_signer_initiator (ike_sa w));
          w = emit (Generate status) w
      in if status \<noteq> SUCCESS then
           (let w = logger_log ''ERROR'' ''could not generate packet from message'' w;
                w = emit (Message_destroy reply) w
            in (status, w))
         else
           (let w = logger_log ''CONTROL | MOST'' ''Add packet to global send queue'' w;
                w = send_queue_add packet w;
                w = logger_log ''CONTROL | MOST'' ''Create next state object'' w;
                w = emit Ike_auth_requested_create w;
                status = set_last_requested_message env request;
                w = store_last_requested_message status request w
            in if status \<noteq> SUCCESS then
                 (let w = logger_log ''ERROR'' ''Could not set last requested message'' w;
                      w = emit (State_destroy IKE_AUTH_REQUESTED) w;
                      w = emit (Message_destroy request) w
                  in (status, w))
               else
                 (let w = set_new_state IKE_AUTH_REQUESTED w;
                      w = logger_log ''CONTROL | MORE'' ''Changed state of IKE_SA from %s to %s'' w;
                      w = logger_log ''CONTROL | MOST'' ''Destroy old sate object'' w;
                      w = destroy_after_state_change w
                  in (SUCCESS, w))))"

definition process_message :: "collaborators \<Rightarrow> message_t \<Rightarrow> world \<Rightarrow> status_t \<times> world" where
  "process_message env reply w0 =
     (let exchange_type = get_exchange_type reply
      in if exchange_type \<noteq> IKE_SA_INIT then
           (FAILED, logger_log ''ERROR | MORE''
                      ''Message of type %s not supported in state ike_sa_init_requested'' w0)
         else if get_request reply then
           (FAILED, logger_log ''ERROR | MORE''
                      ''Only responses of type IKE_SA_INIT supported in state ike_sa_init_requested'' w0)
         else
           (let status = parse_body env reply;
                w = emit (Parse_body status) w0
            in if status \<noteq> SUCCESS then
                 (status, logger_log ''ERROR | MORE'' ''Could not parse body'' w)
               else
                 (let responder_spi = get_responder_spi reply;
                      w = set_responder_spi responder_spi w;
                      w = emit Get_payload_iterator w
                  in case process_payloads env (get_payloads reply) w of
                       (Some status, w) \<Rightarrow> (status, w)
                     | (None, w) \<Rightarrow> process_message_after_payloads env reply w)))"

subsection \<open>Notions used to state the properties\<close>

text \<open>The calls one run of \<^verbatim>\<open>process_message\<close> adds to those made before.\<close>

definition new_events :: "collaborators \<Rightarrow> message_t \<Rightarrow> world \<Rightarrow> event list" where
  "new_events env reply w = drop (length (trace w)) (trace (snd (process_message env reply w)))"

text \<open>
  A payload the loop passes: a key exchange or nonce payload, or a security
  association payload that hands out exactly one proposal, which the configuration
  selects and from which the transforms are created.
\<close>

fun payload_accepted :: "collaborators \<Rightarrow> payload_t \<Rightarrow> bool" where
  "payload_accepted env (Sa_payload status ike_proposals) =
     (status = SUCCESS \<and> length ike_proposals = 1
      \<and> fst (select_proposal env ike_proposals 1) = SUCCESS
      \<and> create_transforms_from_proposal env (snd (select_proposal env ike_proposals 1)) = SUCCESS)"
| "payload_accepted env (Ke_payload key_exchange_data) = True"
| "payload_accepted env (Nonce_payload nonce) = True"
| "payload_accepted env payload = False"

text \<open>
  A payload at which the exchange fails: a payload of an unsupported type, a
  security association payload whose one proposal the configuration rejects, or
  one from whose selected proposal the transforms cannot be created.
\<close>

fun payload_rejected :: "collaborators \<Rightarrow> payload_t \<Rightarrow> bool" where
  "payload_rejected env (Sa_payload status ike_proposals) =
     (status = SUCCESS \<and> length ike_proposals = 1
      \<and> (fst (select_proposal env ike_proposals 1) \<noteq> SUCCESS
           \<or> create_transforms_from_proposal env (snd (select_proposal env ike_proposals 1)) \<noteq> SUCCESS))"
| "payload_rejected env (Ke_payload key_exchange_data) = False"
| "payload_rejected env (Nonce_payload nonce) = False"
| "payload_rejected env payload = True"

text \<open>A payload of one of the three types of the switch, with one proposal if it is an SA payload.\<close>

fun expected_payload :: "payload_t \<Rightarrow> bool" where
  "expected_payload (Sa_payload status ike_proposals) = (length ike_proposals = 1)"
| "expected_payload (Ke_payload key_exchange_data) = True"
| "expected_payload (Nonce_payload nonce) = True"
| "expected_payload payload = False"

text \<open>A call that returns a status returned \<^verbatim>\<open>SUCCESS\<close>.\<close>

fun call_succeeded :: "event \<Rightarrow> bool" where
  "call_succeeded (Parse_body status) = (status = SUCCESS)"
| "call_succeeded (Get_ike_proposals status) = (status = SUCCESS)"
| "call_succeeded (Select_proposal status) = (status = SUCCESS)"
| "call_succeeded (Create_transforms_from_proposal status) = (status = SUCCESS)"
| "call_succeeded (Get_shared_secret status) = (status = SUCCESS)"
| "call_succeeded (Generate status) = (status = SUCCESS)"
| "call_succeeded (Set_last_requested_message status) = (status = SUCCESS)"
| "call_succeeded e = True"

text \<open>The calls made inside the loop over the payloads.\<close>

fun payload_event :: "event \<Rightarrow> bool" where
  "payload_event Iterator_destroy = True"
| "payload_event (Get_ike_proposals status) = True"
| "payload_event (Select_proposal status) = True"
| "payload_event (Create_transforms_from_proposal status) = True"
| "payload_event (Allocator_free_proposals ike_proposals) = True"
| "payload_event (Allocator_free p) = True"
| "payload_event (Set_other_public_value public_value) = True"
| "payload_event e = False"

text \<open>
  The two steps of the NONCE case: lines 234 and 235 free the buffer of the
  received nonce stored so far and reset the field to the empty chunk; line 237
  lets the payload write its nonce into the field.
\<close>

definition release_received_nonce :: "world \<Rightarrow> world" where
  "release_received_nonce w0 =
     (let w = allocator_free (ptr (received_nonce (this w0))) w0;
          w = w\<lparr>this := (this w)\<lparr>received_nonce := CHUNK_INITIALIZER\<rparr>\<rparr>
      in w)"

definition get_nonce :: "chunk_t \<Rightarrow> world \<Rightarrow> world" where
  "get_nonce nonce w = w\<lparr>this := (this w)\<lparr>received_nonce := nonce\<rparr>\<rparr>"

text \<open>The calls of \<^verbatim>\<open>allocator_free\<close> on the pointer of a chunk.\<close>

fun frees_buffer :: "event \<Rightarrow> bool" where
  "frees_buffer (Allocator_free p) = True"
| "frees_buffer e = False"

text \<open>
  What of the world decides how a run goes on: the state object, the session and
  the send queue, but neither the log nor the calls already made.
\<close>

definition data :: "world \<Rightarrow> private_ike_sa_init_requested_t \<times> protected_ike_sa_t \<times> packet_t list" where
  "data w = (this w, ike_sa w, send_queue w)"

text \<open>The world in which the loop over the payloads starts, once the reply has passed the checks.\<close>

definition start_of_loop :: "message_t \<Rightarrow> world \<Rightarrow> world" where
  "start_of_loop reply w =
     emit Get_payload_iterator
       (set_responder_spi (get_responder_spi reply) (emit (Parse_body SUCCESS) w))"

text \<open>
  Three values of the code after the loop, as functions of the world \<open>w\<close> in
  which the loop ends: the shared secret the Diffie-Hellman object hands out
  (with the status of the call), the IKE_AUTH request that is built, and the
  packet generated from it (with the status of the call) under the crypter and
  the signer of the session, which by then hold the key material.
\<close>

definition derived_secret :: "collaborators \<Rightarrow> world \<Rightarrow> status_t \<times> chunk_t" where
  "derived_secret env w = get_shared_secret env (diffie_hellman (this w))"

definition built_request :: "world \<Rightarrow> message_t" where
  "built_request w = fst (build_ike_auth_request w)"

definition generated_packet :: "collaborators \<Rightarrow> world \<Rightarrow> status_t \<times> packet_t" where
  "generated_packet env w =
     (let sa = (ike_sa w)\<lparr>secrets :=
                 Some (snd (derived_secret env w), sent_nonce (this w), received_nonce (this w))\<rparr>
      in generate env (built_request w) (get_crypter_initiator sa) (get_signer_initiator sa))"

text \<open>
  What the loop over the payloads never writes: the send queue, the shared secret,
  the sent nonce and the priority of the state object, and of the session the
  identifier, the current state, the key material and the last requested message.
\<close>

definition kept_by_loop ::
  "world \<Rightarrow> packet_t list \<times> chunk_t \<times> chunk_t \<times> 16 word \<times> ike_sa_id_t \<times> ike_sa_state_t
            \<times> (chunk_t \<times> chunk_t \<times> chunk_t) option \<times> message_t option" where
  "kept_by_loop w =
     (send_queue w, shared_secret (this w), sent_nonce (this w), dh_group_priority (this w),
      ike_sa_id (ike_sa w), current_state (ike_sa w), secrets (ike_sa w),
      last_requested_message (ike_sa w))"

subsection \<open>Example runs\<close>

definition proposal_a :: ike_proposal_t where
  "proposal_a = \<lparr>encryption_algorithm = 12, integrity_algorithm = 2,
                 pseudo_random_function = 2, diffie_hellman_group = 14\<rparr>"

definition proposal_b :: ike_proposal_t where
  "proposal_b = \<lparr>encryption_algorithm = 3, integrity_algorithm = 1,
                 pseudo_random_function = 1, diffie_hellman_group = 2\<rparr>"

definition ke_data :: chunk_t where
  "ke_data = \<lparr>ptr = Allocated 20, octets = ''g^r''\<rparr>"

definition nonce_i :: chunk_t where
  "nonce_i = \<lparr>ptr = Allocated 10, octets = ''Ni''\<rparr>"

definition nonce_r :: chunk_t where
  "nonce_r = \<lparr>ptr = Allocated 21, octets = ''Nr''\<rparr>"

definition nonce_r2 :: chunk_t where
  "nonce_r2 = \<lparr>ptr = Allocated 22, octets = ''Nr2''\<rparr>"

text \<open>A second nonce of the responder in a buffer at the address of the first, allocated after that was freed.\<close>

definition nonce_r_again :: chunk_t where
  "nonce_r_again = \<lparr>ptr = Allocated 21, octets = ''Nr2''\<rparr>"

definition secret_ir :: chunk_t where
  "secret_ir = \<lparr>ptr = Allocated 30, octets = ''g^ir''\<rparr>"

text \<open>Collaborators that all succeed, and four sets with one that fails.\<close>

definition env_ok :: collaborators where
  "env_ok = \<lparr>parse_body = (\<lambda>message. SUCCESS),
             select_proposal = (\<lambda>ike_proposals n.
               case ike_proposals of [] \<Rightarrow> (FAILED, proposal_a) | p # ps \<Rightarrow> (SUCCESS, p)),
             create_transforms_from_proposal = (\<lambda>proposal. SUCCESS),
             get_shared_secret = (\<lambda>dh. (SUCCESS, secret_ir)),
             generate = (\<lambda>message crypter signer. (SUCCESS, Packet ''IKE_AUTH request'')),
             set_last_requested_message = (\<lambda>message. SUCCESS)\<rparr>"

definition env_dh_fails :: collaborators where
  "env_dh_fails = env_ok\<lparr>get_shared_secret := (\<lambda>dh. (FAILED, CHUNK_INITIALIZER))\<rparr>"

definition env_generate_fails :: collaborators where
  "env_generate_fails = env_ok\<lparr>generate := (\<lambda>message crypter signer. (FAILED, Packet []))\<rparr>"

definition env_bookkeeping_fails :: collaborators where
  "env_bookkeeping_fails = env_ok\<lparr>set_last_requested_message := (\<lambda>message. FAILED)\<rparr>"

definition env_policy_rejects :: collaborators where
  "env_policy_rejects = env_ok\<lparr>select_proposal := (\<lambda>ike_proposals n. (FAILED, proposal_a))\<rparr>"

text \<open>The world right after the IKE_SA_INIT request was sent.\<close>

definition initial_world :: world where
  "initial_world =
     \<lparr>this = ike_sa_init_requested_create 1 \<lparr>other_public_value = None\<rparr> nonce_i,
      ike_sa = \<lparr>ike_sa_id = \<lparr>initiator_spi = 7, responder_spi = 0\<rparr>,
                current_state = IKE_SA_INIT_REQUESTED, transforms = None, secrets = None,
                last_requested_message = None\<rparr>,
      send_queue = [], logger = [], trace = []\<rparr>"

definition reply_with :: "payload_t list \<Rightarrow> message_t" where
  "reply_with ps = \<lparr>get_exchange_type = IKE_SA_INIT, get_request = False,
                    get_responder_spi = 9, get_payloads = ps\<rparr>"

definition valid_reply :: message_t where
  "valid_reply = reply_with [Sa_payload SUCCESS [proposal_a], Ke_payload ke_data, Nonce_payload nonce_r]"

definition reply_two_proposals :: message_t where
  "reply_two_proposals =
     reply_with [Sa_payload SUCCESS [proposal_a, proposal_b], Ke_payload ke_data, Nonce_payload nonce_r]"

definition reply_two_nonces :: message_t where
  "reply_two_nonces =
     reply_with [Sa_payload SUCCESS [proposal_a], Ke_payload ke_data,
                 Nonce_payload nonce_r, Nonce_payload nonce_r2]"

definition reply_address_reused :: message_t where
  "reply_address_reused =
     reply_with [Sa_payload SUCCESS [proposal_a], Ke_payload ke_data,
                 Nonce_payload nonce_r, Nonce_payload nonce_r_again]"

definition reply_with_notify :: message_t where
  "reply_with_notify = reply_with [Ke_payload ke_data, Other_payload 41, Nonce_payload nonce_r]"

definition ike_auth_request :: message_t where
  "ike_auth_request =
     \<lparr>get_exchange_type = IKE_AUTH, get_request = True, get_responder_spi = 9,
      get_payloads =
        [Id_payload True ID_RFC822_ADDR
           \<lparr>ptr = String_literal ''moerdi@hsr.ch'', octets = ''moerdi@hsr.ch'' @ [CHR 0x00]\<rparr>,
         Auth_payload RSA_DIGITAL_SIGNATURE
           \<lparr>ptr = String_literal ''this is the key'', octets = ''this is the key''\<rparr>]\<rparr>"

section \<open>Proofs\<close>

subsection \<open>What each helper leaves alone\<close>

lemma logger_log_fields [simp]:
  "this (logger_log l m w) = this w"
  "ike_sa (logger_log l m w) = ike_sa w"
  "send_queue (logger_log l m w) = send_queue w"
  "trace (logger_log l m w) = trace w"
  by (simp_all add: logger_log_def)

lemma logger_log_chunk_fields [simp]:
  "this (logger_log_chunk l m w) = this w"
  "ike_sa (logger_log_chunk l m w) = ike_sa w"
  "send_queue (logger_log_chunk l m w) = send_queue w"
  "trace (logger_log_chunk l m w) = trace w"
  by (simp_all add: logger_log_chunk_def)

lemma emit_fields [simp]:
  "this (emit e w) = this w"
  "ike_sa (emit e w) = ike_sa w"
  "send_queue (emit e w) = send_queue w"
  "trace (emit e w) = trace w @ [e]"
  by (simp_all add: emit_def)

lemma allocator_free_fields [simp]:
  "this (allocator_free p w) = this w"
  "ike_sa (allocator_free p w) = ike_sa w"
  "send_queue (allocator_free p w) = send_queue w"
  "trace (allocator_free p w) = trace w @ [Allocator_free p]"
  by (simp_all add: allocator_free_def)

lemmas session_defs =
  set_responder_spi_def set_other_public_value_def store_transforms_def compute_secrets_def
  send_queue_add_def store_last_requested_message_def set_new_state_def

lemmas tail_defs =
  process_message_after_payloads_def build_ike_auth_request_def build_message_def
  build_id_payload_def build_auth_payload_def add_payload_def destroy_after_state_change_def
  get_crypter_initiator_def get_signer_initiator_def

lemma start_of_loop_fields [simp]:
  "this (start_of_loop reply w) = this w"
  "send_queue (start_of_loop reply w) = send_queue w"
  "trace (start_of_loop reply w) =
     trace w @ [Parse_body SUCCESS, Set_responder_spi (get_responder_spi reply), Get_payload_iterator]"
  "ike_sa (start_of_loop reply w) =
     (ike_sa w)\<lparr>ike_sa_id := (ike_sa_id (ike_sa w))\<lparr>responder_spi := get_responder_spi reply\<rparr>\<rparr>"
  by (simp_all add: start_of_loop_def set_responder_spi_def)

subsection \<open>The loop over the payloads\<close>

lemma process_payloads_append:
  "process_payloads env (xs @ ys) w =
     (case process_payloads env xs w of
        (Some status, w') \<Rightarrow> (Some status, w')
      | (None, w') \<Rightarrow> process_payloads env ys w')"
  by (induction xs arbitrary: w) (auto split: prod.splits option.splits)

lemma process_payload_trace:
  "\<exists>evs. trace (snd (process_payload env p w)) = trace w @ evs \<and> list_all payload_event evs"
  by (cases p) (auto simp add: Let_def session_defs split: prod.splits)

lemma process_payloads_trace:
  "\<exists>evs. trace (snd (process_payloads env ps w)) = trace w @ evs \<and> list_all payload_event evs"
proof (induction ps arbitrary: w)
  case Nil
  show ?case by simp
next
  case (Cons p ps)
  obtain r w1 where step: "process_payload env p w = (r, w1)"
    by (cases "process_payload env p w")
  obtain evs1 where evs1: "trace w1 = trace w @ evs1" "list_all payload_event evs1"
    using process_payload_trace [of env p w] step by auto
  show ?case
  proof (cases r)
    case (Some status)
    with step evs1 show ?thesis by auto
  next
    case None
    obtain evs2 where evs2:
      "trace (snd (process_payloads env ps w1)) = trace w1 @ evs2" "list_all payload_event evs2"
      using Cons.IH [of w1] by auto
    have "trace (snd (process_payloads env (p # ps) w)) = trace w @ (evs1 @ evs2)"
      using step None evs1 evs2 by simp
    moreover have "list_all payload_event (evs1 @ evs2)"
      using evs1 evs2 by simp
    ultimately show ?thesis by blast
  qed
qed

lemma process_payload_accepted:
  "payload_accepted env p \<Longrightarrow> fst (process_payload env p w) = None"
  by (cases p) (auto simp add: Let_def split: prod.splits)

lemma process_payloads_accepted:
  "list_all (payload_accepted env) ps \<Longrightarrow> fst (process_payloads env ps w) = None"
proof (induction ps arbitrary: w)
  case Nil
  show ?case by simp
next
  case (Cons p ps)
  then have "fst (process_payload env p w) = None"
    by (simp add: process_payload_accepted)
  then obtain w1 where "process_payload env p w = (None, w1)"
    by (cases "process_payload env p w") auto
  with Cons show ?case by simp
qed

text \<open>The loop writes the transforms of the session, the Diffie-Hellman object and the received nonce, and nothing else.\<close>

lemma process_payload_kept:
  "kept_by_loop (snd (process_payload env p w)) = kept_by_loop w"
  by (cases p) (simp_all add: kept_by_loop_def Let_def session_defs split: prod.splits)

lemma process_payloads_kept:
  "kept_by_loop (snd (process_payloads env ps w)) = kept_by_loop w"
proof (induction ps arbitrary: w)
  case Nil
  show ?case by simp
next
  case (Cons p ps)
  obtain r w1 where step: "process_payload env p w = (r, w1)"
    by (cases "process_payload env p w")
  have kept1: "kept_by_loop w1 = kept_by_loop w"
    using process_payload_kept [of env p w] step by simp
  show ?case
  proof (cases r)
    case None
    with step kept1 Cons.IH [of w1] show ?thesis by simp
  next
    case (Some status)
    with step kept1 show ?thesis by simp
  qed
qed

lemma process_payloads_frame:
  "send_queue (snd (process_payloads env ps w)) = send_queue w"
  "shared_secret (this (snd (process_payloads env ps w))) = shared_secret (this w)"
  "sent_nonce (this (snd (process_payloads env ps w))) = sent_nonce (this w)"
  "dh_group_priority (this (snd (process_payloads env ps w))) = dh_group_priority (this w)"
  "ike_sa_id (ike_sa (snd (process_payloads env ps w))) = ike_sa_id (ike_sa w)"
  "current_state (ike_sa (snd (process_payloads env ps w))) = current_state (ike_sa w)"
  "secrets (ike_sa (snd (process_payloads env ps w))) = secrets (ike_sa w)"
  "last_requested_message (ike_sa (snd (process_payloads env ps w))) = last_requested_message (ike_sa w)"
  using process_payloads_kept [of env ps w] by (simp_all add: kept_by_loop_def)

subsection \<open>The function as a whole\<close>

lemma process_message_checked:
  assumes "get_exchange_type reply = IKE_SA_INIT" and "\<not> get_request reply"
    and "parse_body env reply = SUCCESS"
  shows "process_message env reply w =
           (case process_payloads env (get_payloads reply) (start_of_loop reply w) of
              (Some status, w') \<Rightarrow> (status, w')
            | (None, w') \<Rightarrow> process_message_after_payloads env reply w')"
  using assms by (simp add: process_message_def start_of_loop_def Let_def)

lemma after_payloads_trace:
  "\<exists>evs. trace (snd (process_message_after_payloads env reply w)) = trace w @ evs"
  by (simp add: tail_defs session_defs Let_def split: prod.splits)

lemma process_message_trace:
  "\<exists>evs. trace (snd (process_message env reply w)) = trace w @ evs"
proof -
  obtain r w1 where loop: "process_payloads env (get_payloads reply) (start_of_loop reply w) = (r, w1)"
    by (cases "process_payloads env (get_payloads reply) (start_of_loop reply w)")
  obtain evs1 where evs1: "trace w1 = trace (start_of_loop reply w) @ evs1"
    using process_payloads_trace [of env "get_payloads reply" "start_of_loop reply w"] loop by auto
  obtain evs2 where evs2: "trace (snd (process_message_after_payloads env reply w1)) = trace w1 @ evs2"
    using after_payloads_trace by blast
  show ?thesis
    using loop evs1 evs2
    by (cases r) (auto simp add: process_message_def Let_def start_of_loop_def [symmetric]
      simp del: start_of_loop_fields(4))
qed

lemma trace_new_events:
  "trace (snd (process_message env reply w)) = trace w @ new_events env reply w"
  using process_message_trace [of env reply w] by (auto simp add: new_events_def)

lemma new_events_unchecked:
  "get_exchange_type reply \<noteq> IKE_SA_INIT \<or> get_request reply \<Longrightarrow> new_events env reply w = []"
  by (auto simp add: new_events_def process_message_def)

lemma new_events_unparsed:
  "get_exchange_type reply = IKE_SA_INIT \<Longrightarrow> \<not> get_request reply \<Longrightarrow> parse_body env reply \<noteq> SUCCESS
    \<Longrightarrow> new_events env reply w = [Parse_body (parse_body env reply)]"
  by (auto simp add: new_events_def process_message_def Let_def)

lemmas run_defs =
  process_message_def process_message_after_payloads_def build_ike_auth_request_def build_message_def
  build_id_payload_def build_auth_payload_def add_payload_def destroy_after_state_change_def
  get_crypter_initiator_def get_signer_initiator_def session_defs new_events_def
  CHUNK_INITIALIZER_def ike_sa_init_requested_create_def

lemmas example_defs =
  env_ok_def env_dh_fails_def env_generate_fails_def env_bookkeeping_fails_def env_policy_rejects_def
  initial_world_def reply_with_def valid_reply_def reply_two_proposals_def reply_two_nonces_def reply_address_reused_def
  reply_with_notify_def ike_auth_request_def
  proposal_a_def proposal_b_def ke_data_def nonce_i_def nonce_r_def nonce_r2_def nonce_r_again_def secret_ir_def

subsection \<open>Failures of the loop\<close>

lemma process_payload_rejected:
  "payload_rejected env p \<Longrightarrow> \<exists>status. fst (process_payload env p w) = Some status \<and> status \<noteq> SUCCESS"
  by (cases p) (auto simp add: Let_def split: prod.splits)

lemma process_payload_unsupported:
  assumes "get_type p \<notin> {SECURITY_ASSOCIATION, KEY_EXCHANGE, NONCE}"
  shows "process_payload env p w =
           (Some FAILED,
            emit Iterator_destroy
              (logger_log ''ERROR'' ''Payload type not supported!!!!''
                 (logger_log ''CONTROL | MORE'' ''Processing payload %s'' w)))"
  using assms by (cases p) (simp_all add: Let_def)

lemma process_payloads_stop:
  assumes "list_all (payload_accepted env) pre"
    and "process_payload env p (snd (process_payloads env pre w)) = (Some status, w')"
  shows "process_payloads env (pre @ p # post) w = (Some status, w')"
proof -
  have "fst (process_payloads env pre w) = None"
    using assms(1) by (rule process_payloads_accepted)
  then obtain x where pre: "process_payloads env pre w = (None, x)"
    by (cases "process_payloads env pre w") auto
  with assms(2) show ?thesis
    by (simp add: process_payloads_append)
qed

text \<open>
  C1. A reply whose SA payload carries two proposals: the function logs the error,
  frees the array of proposals and destroys the iterator, the state of the session
  stays IKE_SA_INIT_REQUESTED, but the status it returns is the one
  \<^verbatim>\<open>get_ike_proposals\<close> returned, which is \<^verbatim>\<open>SUCCESS\<close>, not a failure.
\<close>

theorem C1_two_proposals_return_SUCCESS:
  "fst (process_message env_ok reply_two_proposals initial_world) = SUCCESS
   \<and> new_events env_ok reply_two_proposals initial_world =
       [Parse_body SUCCESS, Set_responder_spi 9, Get_payload_iterator, Get_ike_proposals SUCCESS,
        Allocator_free_proposals [proposal_a, proposal_b], Iterator_destroy]
   \<and> current_state (ike_sa (snd (process_message env_ok reply_two_proposals initial_world)))
       = IKE_SA_INIT_REQUESTED"
  by (simp add: run_defs example_defs Let_def)

text \<open>
  C2. A Diffie-Hellman object whose \<^verbatim>\<open>get_shared_secret\<close> fails: the status is
  stored and never looked at. The function derives the key material from the
  empty secret, sends the IKE_AUTH request, changes the state and returns
  \<^verbatim>\<open>SUCCESS\<close>.
\<close>

theorem C2_failed_shared_secret_is_ignored:
  "fst (process_message env_dh_fails valid_reply initial_world) = SUCCESS
   \<and> Get_shared_secret FAILED \<in> set (new_events env_dh_fails valid_reply initial_world)
   \<and> secrets (ike_sa (snd (process_message env_dh_fails valid_reply initial_world)))
       = Some (CHUNK_INITIALIZER, nonce_i, nonce_r)
   \<and> send_queue (snd (process_message env_dh_fails valid_reply initial_world))
       = [Packet ''IKE_AUTH request'']
   \<and> current_state (ike_sa (snd (process_message env_dh_fails valid_reply initial_world)))
       = IKE_AUTH_REQUESTED"
  by (simp add: run_defs example_defs Let_def)

text \<open>
  C3. A request whose \<^verbatim>\<open>generate\<close> fails: the function returns the failure,
  enqueues nothing and leaves the state of the session as it is. It destroys the
  reply; the IKE_AUTH request it has built is not destroyed by any call.
\<close>

theorem C3_failed_generate_leaks_request:
  "fst (process_message env_generate_fails valid_reply initial_world) = FAILED
   \<and> send_queue (snd (process_message env_generate_fails valid_reply initial_world)) = []
   \<and> current_state (ike_sa (snd (process_message env_generate_fails valid_reply initial_world)))
       = IKE_SA_INIT_REQUESTED
   \<and> new_events env_generate_fails valid_reply initial_world =
       [Parse_body SUCCESS, Set_responder_spi 9, Get_payload_iterator, Get_ike_proposals SUCCESS,
        Select_proposal SUCCESS, Allocator_free_proposals [proposal_a],
        Create_transforms_from_proposal SUCCESS, Set_other_public_value ke_data,
        Allocator_free NULL, Iterator_destroy, Allocator_free NULL, Get_shared_secret SUCCESS,
        Compute_secrets secret_ir nonce_i nonce_r, Build_message IKE_AUTH True, Generate FAILED,
        Message_destroy valid_reply]
   \<and> built_request (snd (process_message env_generate_fails valid_reply initial_world)) = ike_auth_request
   \<and> Message_destroy ike_auth_request \<notin> set (new_events env_generate_fails valid_reply initial_world)"
  by (simp add: run_defs example_defs built_request_def Let_def)

text \<open>
  C6. A message that is not of exchange type IKE_SA_INIT, or that is a request:
  the function returns \<^verbatim>\<open>FAILED\<close> and has only written a line to the log.
  It makes no call (the body is not parsed, no SPI is set, no payload is
  looked at), and the state object, the session with its current state and the
  send queue are as before.
\<close>

theorem C6_protocol_mismatch_changes_nothing:
  assumes "get_exchange_type reply \<noteq> IKE_SA_INIT \<or> get_request reply"
  shows "fst (process_message env reply w) = FAILED
       \<and> new_events env reply w = []
       \<and> this (snd (process_message env reply w)) = this w
       \<and> ike_sa (snd (process_message env reply w)) = ike_sa w
       \<and> send_queue (snd (process_message env reply w)) = send_queue w
       \<and> trace (snd (process_message env reply w)) = trace w"
  using assms by (auto simp add: process_message_def new_events_def)

theorem C6_witness:
  "get_request (valid_reply\<lparr>get_request := True\<rparr>)
   \<and> fst (process_message env_ok (valid_reply\<lparr>get_request := True\<rparr>) initial_world) = FAILED
   \<and> new_events env_ok (valid_reply\<lparr>get_request := True\<rparr>) initial_world = []
   \<and> current_state (ike_sa (snd (process_message env_ok (valid_reply\<lparr>get_request := True\<rparr>) initial_world)))
       = IKE_SA_INIT_REQUESTED
   \<and> responder_spi (ike_sa_id (ike_sa
        (snd (process_message env_ok (valid_reply\<lparr>get_request := True\<rparr>) initial_world)))) = 0"
proof -
  have h: "get_exchange_type (valid_reply\<lparr>get_request := True\<rparr>) \<noteq> IKE_SA_INIT
           \<or> get_request (valid_reply\<lparr>get_request := True\<rparr>)"
    by simp
  show ?thesis
    using C6_protocol_mismatch_changes_nothing [OF h, of env_ok initial_world]
    by (simp add: initial_world_def)
qed

text \<open>
  C7. The reply has passed the checks, the payloads before this one were accepted,
  and this payload is of a type other than SECURITY_ASSOCIATION, KEY_EXCHANGE and
  NONCE. Then the function returns \<^verbatim>\<open>FAILED\<close>, and the world it leaves is
  the one the payloads before left, with two lines more in the log and one call
  more, the release of the iterator. So the payload is not skipped, and the
  payloads after it play no part in the result.
\<close>

theorem C7_unsupported_payload_stops_the_loop:
  assumes "get_exchange_type reply = IKE_SA_INIT" and "\<not> get_request reply"
    and "parse_body env reply = SUCCESS"
    and "get_payloads reply = pre @ payload # post"
    and "list_all (payload_accepted env) pre"
    and "get_type payload \<notin> {SECURITY_ASSOCIATION, KEY_EXCHANGE, NONCE}"
  shows "process_message env reply w =
           (FAILED,
            emit Iterator_destroy
              (logger_log ''ERROR'' ''Payload type not supported!!!!''
                 (logger_log ''CONTROL | MORE'' ''Processing payload %s''
                    (snd (process_payloads env pre (start_of_loop reply w))))))
       \<and> trace (snd (process_message env reply w)) =
           trace (snd (process_payloads env pre (start_of_loop reply w))) @ [Iterator_destroy]
       \<and> data (snd (process_message env reply w)) =
           data (snd (process_payloads env pre (start_of_loop reply w)))"
proof -
  let ?x = "snd (process_payloads env pre (start_of_loop reply w))"
  let ?y = "emit Iterator_destroy
              (logger_log ''ERROR'' ''Payload type not supported!!!!''
                 (logger_log ''CONTROL | MORE'' ''Processing payload %s'' ?x))"
  have step: "process_payload env payload ?x = (Some FAILED, ?y)"
    using assms(6) by (rule process_payload_unsupported)
  have loop: "process_payloads env (pre @ payload # post) (start_of_loop reply w) = (Some FAILED, ?y)"
    using assms(5) step by (rule process_payloads_stop)
  have run: "process_message env reply w = (FAILED, ?y)"
    using assms(1-4) loop by (simp add: process_message_checked)
  show ?thesis
    unfolding run by (simp add: data_def)
qed

theorem C7_witness:
  "get_exchange_type reply_with_notify = IKE_SA_INIT \<and> \<not> get_request reply_with_notify
   \<and> parse_body env_ok reply_with_notify = SUCCESS
   \<and> get_payloads reply_with_notify = [Ke_payload ke_data] @ Other_payload 41 # [Nonce_payload nonce_r]
   \<and> list_all (payload_accepted env_ok) [Ke_payload ke_data]
   \<and> get_type (Other_payload 41) \<notin> {SECURITY_ASSOCIATION, KEY_EXCHANGE, NONCE}
   \<and> fst (process_message env_ok reply_with_notify initial_world) = FAILED
   \<and> trace (snd (process_message env_ok reply_with_notify initial_world)) =
       [Parse_body SUCCESS, Set_responder_spi 9, Get_payload_iterator,
        Set_other_public_value ke_data, Iterator_destroy]
   \<and> received_nonce (this (snd (process_message env_ok reply_with_notify initial_world)))
       = CHUNK_INITIALIZER"
proof -
  have h: "get_exchange_type reply_with_notify = IKE_SA_INIT" "\<not> get_request reply_with_notify"
    "parse_body env_ok reply_with_notify = SUCCESS"
    "get_payloads reply_with_notify = [Ke_payload ke_data] @ Other_payload 41 # [Nonce_payload nonce_r]"
    "list_all (payload_accepted env_ok) [Ke_payload ke_data]"
    "get_type (Other_payload 41) \<notin> {SECURITY_ASSOCIATION, KEY_EXCHANGE, NONCE}"
    by (simp_all add: reply_with_notify_def reply_with_def env_ok_def)
  show ?thesis
    using h C7_unsupported_payload_stops_the_loop [OF h, of initial_world]
    by (simp add: Let_def session_defs start_of_loop_def initial_world_def
        ike_sa_init_requested_create_def reply_with_notify_def reply_with_def)
qed

text \<open>
  C10. The SPI of the responder is set right after the body is parsed, before the
  iterator over the payloads is created. So when the reply has passed the checks,
  the payloads before this one were accepted and this one is rejected (its type is
  unsupported, its proposal is not selected, or the transforms cannot be created),
  the function returns a failure and does not change the current state, and yet
  the session has the responder SPI of the failed reply.
\<close>

theorem C10_responder_spi_is_set_before_the_payloads:
  assumes "get_exchange_type reply = IKE_SA_INIT" and "\<not> get_request reply"
    and "parse_body env reply = SUCCESS"
    and "get_payloads reply = pre @ payload # post"
    and "list_all (payload_accepted env) pre"
    and "payload_rejected env payload"
  shows "fst (process_message env reply w) \<noteq> SUCCESS
       \<and> responder_spi (ike_sa_id (ike_sa (snd (process_message env reply w)))) = get_responder_spi reply
       \<and> current_state (ike_sa (snd (process_message env reply w))) = current_state (ike_sa w)
       \<and> take 3 (new_events env reply w) =
           [Parse_body SUCCESS, Set_responder_spi (get_responder_spi reply), Get_payload_iterator]"
proof -
  let ?x = "snd (process_payloads env pre (start_of_loop reply w))"
  obtain status y where step: "process_payload env payload ?x = (Some status, y)"
    and failure: "status \<noteq> SUCCESS"
    using process_payload_rejected [OF assms(6), of ?x]
    by (cases "process_payload env payload ?x") auto
  have loop: "process_payloads env (pre @ payload # post) (start_of_loop reply w) = (Some status, y)"
    using assms(5) step by (rule process_payloads_stop)
  have run: "process_message env reply w = (status, y)"
    using assms(1-4) loop by (simp add: process_message_checked)
  have kept: "kept_by_loop y = kept_by_loop (start_of_loop reply w)"
    using process_payloads_kept [of env "pre @ payload # post" "start_of_loop reply w"] loop
    by simp
  obtain evs where "trace y = trace (start_of_loop reply w) @ evs"
    using process_payloads_trace [of env "pre @ payload # post" "start_of_loop reply w"] loop
    by auto
  then have events: "new_events env reply w =
      [Parse_body SUCCESS, Set_responder_spi (get_responder_spi reply), Get_payload_iterator] @ evs"
    using run by (simp add: new_events_def)
  show ?thesis
    using failure kept events unfolding run by (simp add: kept_by_loop_def)
qed

theorem C10_witness:
  "get_exchange_type valid_reply = IKE_SA_INIT \<and> \<not> get_request valid_reply
   \<and> parse_body env_policy_rejects valid_reply = SUCCESS
   \<and> get_payloads valid_reply =
       [] @ Sa_payload SUCCESS [proposal_a] # [Ke_payload ke_data, Nonce_payload nonce_r]
   \<and> list_all (payload_accepted env_policy_rejects) []
   \<and> payload_rejected env_policy_rejects (Sa_payload SUCCESS [proposal_a])
   \<and> fst (process_message env_policy_rejects valid_reply initial_world) = FAILED
   \<and> responder_spi (ike_sa_id (ike_sa initial_world)) = 0
   \<and> responder_spi (ike_sa_id (ike_sa (snd (process_message env_policy_rejects valid_reply initial_world))))
       = 9"
proof -
  have h: "get_exchange_type valid_reply = IKE_SA_INIT" "\<not> get_request valid_reply"
    "parse_body env_policy_rejects valid_reply = SUCCESS"
    "get_payloads valid_reply =
       [] @ Sa_payload SUCCESS [proposal_a] # [Ke_payload ke_data, Nonce_payload nonce_r]"
    "list_all (payload_accepted env_policy_rejects) []"
    "payload_rejected env_policy_rejects (Sa_payload SUCCESS [proposal_a])"
    by (simp_all add: valid_reply_def reply_with_def env_policy_rejects_def env_ok_def)
  have "fst (process_message env_policy_rejects valid_reply initial_world) = FAILED"
    by (simp add: run_defs example_defs Let_def)
  then show ?thesis
    using h C10_responder_spi_is_set_before_the_payloads [OF h, of initial_world]
    by (simp add: valid_reply_def reply_with_def initial_world_def)
qed

subsection \<open>The code after the loop\<close>

lemma built_request_fields [simp]:
  "get_exchange_type (built_request w) = IKE_AUTH"
  "get_request (built_request w)"
  "get_responder_spi (built_request w) = responder_spi (ike_sa_id (ike_sa w))"
  by (simp_all add: built_request_def build_ike_auth_request_def build_message_def
      build_id_payload_def build_auth_payload_def add_payload_def Let_def)

lemma built_request_cong:
  "ike_sa_id (ike_sa w1) = ike_sa_id (ike_sa w2) \<Longrightarrow> built_request w1 = built_request w2"
  by (simp add: built_request_def build_ike_auth_request_def build_message_def
      build_id_payload_def build_auth_payload_def add_payload_def Let_def)

lemmas tail_values = derived_secret_def built_request_def generated_packet_def

lemma after_payloads_status:
  "fst (process_message_after_payloads env reply w) =
     (if fst (generated_packet env w) \<noteq> SUCCESS then fst (generated_packet env w)
      else if set_last_requested_message env (built_request w) \<noteq> SUCCESS
           then set_last_requested_message env (built_request w)
           else SUCCESS)"
  unfolding process_message_after_payloads_def Let_def
  by (simp add: tail_values session_defs build_ike_auth_request_def build_message_def
      build_id_payload_def build_auth_payload_def add_payload_def destroy_after_state_change_def
      get_crypter_initiator_def get_signer_initiator_def split: prod.splits)

lemma after_payloads_events:
  "trace (snd (process_message_after_payloads env reply w)) =
     trace w @
     [Iterator_destroy, Allocator_free (ptr (shared_secret (this w))),
      Get_shared_secret (fst (derived_secret env w)),
      Compute_secrets (snd (derived_secret env w)) (sent_nonce (this w)) (received_nonce (this w)),
      Build_message IKE_AUTH True, Generate (fst (generated_packet env w))] @
     (if fst (generated_packet env w) \<noteq> SUCCESS then [Message_destroy reply]
      else [Send_queue_add (snd (generated_packet env w)), Ike_auth_requested_create,
            Set_last_requested_message (set_last_requested_message env (built_request w))] @
           (if set_last_requested_message env (built_request w) \<noteq> SUCCESS
            then [State_destroy IKE_AUTH_REQUESTED, Message_destroy (built_request w)]
            else [Set_new_state IKE_AUTH_REQUESTED, Diffie_hellman_destroy,
                  Allocator_free (ptr (sent_nonce (this w))),
                  Allocator_free (ptr (received_nonce (this w))),
                  Allocator_free (ptr (snd (derived_secret env w))), Allocator_free_this]))"
  unfolding process_message_after_payloads_def Let_def
  by (simp add: tail_values session_defs build_ike_auth_request_def build_message_def
      build_id_payload_def build_auth_payload_def add_payload_def destroy_after_state_change_def
      get_crypter_initiator_def get_signer_initiator_def split: prod.splits)

lemma after_payloads_this:
  "this (snd (process_message_after_payloads env reply w)) =
     (this w)\<lparr>shared_secret := snd (derived_secret env w)\<rparr>"
  unfolding process_message_after_payloads_def Let_def
  by (simp add: tail_values session_defs build_ike_auth_request_def build_message_def
      build_id_payload_def build_auth_payload_def add_payload_def destroy_after_state_change_def
      get_crypter_initiator_def get_signer_initiator_def split: prod.splits)

lemma after_payloads_send_queue:
  "send_queue (snd (process_message_after_payloads env reply w)) =
     (if fst (generated_packet env w) \<noteq> SUCCESS then send_queue w
      else send_queue w @ [snd (generated_packet env w)])"
  unfolding process_message_after_payloads_def Let_def
  by (simp add: tail_values session_defs build_ike_auth_request_def build_message_def
      build_id_payload_def build_auth_payload_def add_payload_def destroy_after_state_change_def
      get_crypter_initiator_def get_signer_initiator_def split: prod.splits)

lemma after_payloads_ike_sa:
  "ike_sa (snd (process_message_after_payloads env reply w)) =
     (let sa = (ike_sa w)\<lparr>secrets :=
                 Some (snd (derived_secret env w), sent_nonce (this w), received_nonce (this w))\<rparr>
      in if fst (generated_packet env w) \<noteq> SUCCESS then sa
         else if set_last_requested_message env (built_request w) \<noteq> SUCCESS then sa
         else sa\<lparr>last_requested_message := Some (built_request w), current_state := IKE_AUTH_REQUESTED\<rparr>)"
  unfolding process_message_after_payloads_def Let_def
  by (simp add: tail_values session_defs build_ike_auth_request_def build_message_def
      build_id_payload_def build_auth_payload_def add_payload_def destroy_after_state_change_def
      get_crypter_initiator_def get_signer_initiator_def split: prod.splits)

subsection \<open>The calls of a run\<close>

lemma new_events_stopped:
  assumes "get_exchange_type reply = IKE_SA_INIT" and "\<not> get_request reply"
    and "parse_body env reply = SUCCESS"
    and "process_payloads env (get_payloads reply) (start_of_loop reply w) = (Some status, x)"
    and "trace x = trace (start_of_loop reply w) @ evs"
  shows "new_events env reply w =
           [Parse_body SUCCESS, Set_responder_spi (get_responder_spi reply), Get_payload_iterator] @ evs"
  using assms by (simp add: new_events_def process_message_checked)

lemma drop_own_prefix:
  "t' = t @ evs \<Longrightarrow> drop (length t) t' = evs"
  by simp

lemma new_events_completed:
  assumes "get_exchange_type reply = IKE_SA_INIT" and "\<not> get_request reply"
    and "parse_body env reply = SUCCESS"
    and "process_payloads env (get_payloads reply) (start_of_loop reply w) = (None, x)"
    and "trace x = trace (start_of_loop reply w) @ evs"
  shows "new_events env reply w =
           [Parse_body SUCCESS, Set_responder_spi (get_responder_spi reply), Get_payload_iterator] @ evs @
           drop (length (trace x)) (trace (snd (process_message_after_payloads env reply x)))"
proof -
  obtain rest where rest: "trace (snd (process_message_after_payloads env reply x)) = trace x @ rest"
    using after_payloads_trace by blast
  have run: "process_message env reply w = process_message_after_payloads env reply x"
    using assms(1-4) by (simp add: process_message_checked)
  have "trace (snd (process_message env reply w)) =
      trace w @ ([Parse_body SUCCESS, Set_responder_spi (get_responder_spi reply), Get_payload_iterator]
                 @ evs @ rest)"
    unfolding run rest assms(5) by simp
  then have "new_events env reply w =
      [Parse_body SUCCESS, Set_responder_spi (get_responder_spi reply), Get_payload_iterator] @ evs @ rest"
    unfolding new_events_def by (rule drop_own_prefix)
  moreover have "drop (length (trace x)) (trace (snd (process_message_after_payloads env reply x))) = rest"
    using rest by (rule drop_own_prefix)
  ultimately show ?thesis by simp
qed

lemma after_payloads_new_events:
  "drop (length (trace w)) (trace (snd (process_message_after_payloads env reply w))) =
     [Iterator_destroy, Allocator_free (ptr (shared_secret (this w))),
      Get_shared_secret (fst (derived_secret env w)),
      Compute_secrets (snd (derived_secret env w)) (sent_nonce (this w)) (received_nonce (this w)),
      Build_message IKE_AUTH True, Generate (fst (generated_packet env w))] @
     (if fst (generated_packet env w) \<noteq> SUCCESS then [Message_destroy reply]
      else [Send_queue_add (snd (generated_packet env w)), Ike_auth_requested_create,
            Set_last_requested_message (set_last_requested_message env (built_request w))] @
           (if set_last_requested_message env (built_request w) \<noteq> SUCCESS
            then [State_destroy IKE_AUTH_REQUESTED, Message_destroy (built_request w)]
            else [Set_new_state IKE_AUTH_REQUESTED, Diffie_hellman_destroy,
                  Allocator_free (ptr (sent_nonce (this w))),
                  Allocator_free (ptr (received_nonce (this w))),
                  Allocator_free (ptr (snd (derived_secret env w))), Allocator_free_this]))"
  using after_payloads_events [of env reply w] by (rule drop_own_prefix)

lemma payload_event_member:
  "list_all payload_event evs \<Longrightarrow> e \<in> set evs \<Longrightarrow> payload_event e"
  by (simp add: list_all_iff)

text \<open>
  C5. When a run calls \<^verbatim>\<open>set_last_requested_message\<close> and the call fails, the
  function returns the status of that call. Its last four calls are the creation
  of the successor state, the failed call, the \<^verbatim>\<open>destroy\<close> of the successor
  through its state interface and the \<^verbatim>\<open>destroy\<close> of the IKE_AUTH request.
  The run never calls \<^verbatim>\<open>set_new_state\<close>, so the current state of the session
  is the one it was, and it destroys neither the Diffie-Hellman object nor the
  state object.
\<close>

theorem C5_failed_bookkeeping_discards_the_successor:
  assumes "Set_last_requested_message status \<in> set (new_events env reply w)"
    and "status \<noteq> SUCCESS"
  shows "fst (process_message env reply w) = status
       \<and> (\<exists>before request.
             new_events env reply w =
               before @ [Ike_auth_requested_create, Set_last_requested_message status,
                         State_destroy IKE_AUTH_REQUESTED, Message_destroy request]
             \<and> get_exchange_type request = IKE_AUTH \<and> get_request request)
       \<and> (\<forall>state. Set_new_state state \<notin> set (new_events env reply w))
       \<and> Diffie_hellman_destroy \<notin> set (new_events env reply w)
       \<and> Allocator_free_this \<notin> set (new_events env reply w)
       \<and> current_state (ike_sa (snd (process_message env reply w))) = current_state (ike_sa w)"
proof -
  have checked: "get_exchange_type reply = IKE_SA_INIT \<and> \<not> get_request reply"
  proof (rule ccontr)
    assume "\<not> (get_exchange_type reply = IKE_SA_INIT \<and> \<not> get_request reply)"
    then have "get_exchange_type reply \<noteq> IKE_SA_INIT \<or> get_request reply"
      by blast
    then have "new_events env reply w = []"
      by (rule new_events_unchecked)
    with assms(1) show False by simp
  qed
  then have type: "get_exchange_type reply = IKE_SA_INIT" and direction: "\<not> get_request reply"
    by simp_all
  have parsed: "parse_body env reply = SUCCESS"
  proof (rule ccontr)
    assume "parse_body env reply \<noteq> SUCCESS"
    with type direction have "new_events env reply w = [Parse_body (parse_body env reply)]"
      by (rule new_events_unparsed)
    with assms(1) show False by simp
  qed
  obtain r x where loop: "process_payloads env (get_payloads reply) (start_of_loop reply w) = (r, x)"
    by (cases "process_payloads env (get_payloads reply) (start_of_loop reply w)")
  obtain evs where evs: "trace x = trace (start_of_loop reply w) @ evs" "list_all payload_event evs"
    using process_payloads_trace [of env "get_payloads reply" "start_of_loop reply w"] loop by auto
  have outside: "\<not> payload_event e \<Longrightarrow> e \<notin> set evs" for e
    using evs(2) payload_event_member by blast
  have completed: "r = None"
  proof (cases r)
    case (Some st)
    have "new_events env reply w =
        [Parse_body SUCCESS, Set_responder_spi (get_responder_spi reply), Get_payload_iterator] @ evs"
      using type direction parsed loop [unfolded Some] evs(1) by (rule new_events_stopped)
    with assms(1) outside [of "Set_last_requested_message status"] show ?thesis by simp
  qed
  have run: "process_message env reply w = process_message_after_payloads env reply x"
    using type direction parsed loop completed by (simp add: process_message_checked)
  note events = new_events_completed [OF type direction parsed loop [unfolded completed] evs(1)]
  have member: "Set_last_requested_message status
      \<in> set (drop (length (trace x)) (trace (snd (process_message_after_payloads env reply x))))"
    using assms(1) outside [of "Set_last_requested_message status"] unfolding events by simp
  have generated: "fst (generated_packet env x) = SUCCESS"
    using member by (auto simp add: after_payloads_new_events split: if_splits)
  have failed: "set_last_requested_message env (built_request x) = status"
    using member generated by (auto simp add: after_payloads_new_events split: if_splits)
  have kept: "kept_by_loop x = kept_by_loop (start_of_loop reply w)"
    using process_payloads_kept [of env "get_payloads reply" "start_of_loop reply w"] loop by simp
  have "fst (process_message env reply w) = status"
    unfolding run using generated failed assms(2) by (simp add: after_payloads_status)
  moreover have "new_events env reply w =
      ([Parse_body SUCCESS, Set_responder_spi (get_responder_spi reply), Get_payload_iterator] @ evs @
       [Iterator_destroy, Allocator_free (ptr (shared_secret (this x))),
        Get_shared_secret (fst (derived_secret env x)),
        Compute_secrets (snd (derived_secret env x)) (sent_nonce (this x)) (received_nonce (this x)),
        Build_message IKE_AUTH True, Generate SUCCESS, Send_queue_add (snd (generated_packet env x))]) @
      [Ike_auth_requested_create, Set_last_requested_message status,
       State_destroy IKE_AUTH_REQUESTED, Message_destroy (built_request x)]"
    unfolding events using generated failed assms(2) by (simp add: after_payloads_new_events)
  moreover from this have "\<forall>state. Set_new_state state \<notin> set (new_events env reply w)"
    and "Diffie_hellman_destroy \<notin> set (new_events env reply w)"
    and "Allocator_free_this \<notin> set (new_events env reply w)"
    using outside by auto
  moreover have "current_state (ike_sa (snd (process_message env reply w))) = current_state (ike_sa w)"
    unfolding run using generated failed assms(2) kept
    by (simp add: after_payloads_ike_sa kept_by_loop_def)
  ultimately show ?thesis
    using built_request_fields(1,2) [of x] by blast
qed

theorem C5_witness:
  "Set_last_requested_message FAILED \<in> set (new_events env_bookkeeping_fails valid_reply initial_world)
   \<and> FAILED \<noteq> SUCCESS
   \<and> fst (process_message env_bookkeeping_fails valid_reply initial_world) = FAILED
   \<and> Diffie_hellman_destroy \<notin> set (new_events env_bookkeeping_fails valid_reply initial_world)
   \<and> current_state (ike_sa (snd (process_message env_bookkeeping_fails valid_reply initial_world)))
       = IKE_SA_INIT_REQUESTED"
proof -
  have h: "Set_last_requested_message FAILED
             \<in> set (new_events env_bookkeeping_fails valid_reply initial_world)"
    by (simp add: run_defs example_defs Let_def)
  have "FAILED \<noteq> SUCCESS"
    by simp
  with h show ?thesis
    using C5_failed_bookkeeping_discards_the_successor [OF h, of ]
    by (simp add: initial_world_def)
qed

subsection \<open>Runs in which every call succeeds\<close>

lemma process_payload_calls:
  assumes "expected_payload p" and "trace (snd (process_payload env p w)) = trace w @ evs"
    and "list_all call_succeeded evs"
  shows "fst (process_payload env p w) = None"
  using assms by (cases p) (auto simp add: Let_def session_defs split: prod.splits if_splits)

lemma process_payloads_calls:
  assumes "list_all expected_payload ps" and "trace (snd (process_payloads env ps w)) = trace w @ evs"
    and "list_all call_succeeded evs"
  shows "fst (process_payloads env ps w) = None"
  using assms
proof (induction ps arbitrary: w evs)
  case Nil
  show ?case by simp
next
  case (Cons p ps)
  obtain r w1 where step: "process_payload env p w = (r, w1)"
    by (cases "process_payload env p w")
  obtain evs1 where evs1: "trace w1 = trace w @ evs1"
    using process_payload_trace [of env p w] step by auto
  show ?case
  proof (cases r)
    case (Some status)
    with step Cons.prems(2) evs1 have "evs = evs1"
      by simp
    with Cons.prems(1,3) evs1 have "fst (process_payload env p w) = None"
      using process_payload_calls [of p env w evs1] step by simp
    with step Some show ?thesis by simp
  next
    case None
    obtain evs2 where evs2: "trace (snd (process_payloads env ps w1)) = trace w1 @ evs2"
      using process_payloads_trace [of env ps w1] by auto
    with step None Cons.prems(2) evs1 have "evs = evs1 @ evs2"
      by simp
    with Cons.prems(3) have "list_all call_succeeded evs2"
      by simp
    with Cons.prems(1) evs2 have "fst (process_payloads env ps w1) = None"
      using Cons.IH [of w1 evs2] by simp
    with step None show ?thesis by simp
  qed
qed



subsection \<open>The received nonce and the buffers that are freed\<close>

lemma process_payloads_passed:
  "process_payloads env xs w = (None, x) \<Longrightarrow> process_payloads env (xs @ ys) w = process_payloads env ys x"
  by (simp add: process_payloads_append)

lemma process_payloads_accepted_world:
  assumes "list_all (payload_accepted env) ps"
  shows "process_payloads env ps w = (None, snd (process_payloads env ps w))"
  using process_payloads_accepted [OF assms, of w]
  by (cases "process_payloads env ps w") simp

lemma process_payload_nonce:
  "fst (process_payload env (Nonce_payload n) w) = None"
  "received_nonce (this (snd (process_payload env (Nonce_payload n) w))) = n"
  "trace (snd (process_payload env (Nonce_payload n) w)) =
     trace w @ [Allocator_free (ptr (received_nonce (this w)))]"
  by (simp_all add: Let_def)

lemma process_payload_other_than_nonce:
  assumes "get_type p \<noteq> NONCE"
  shows "received_nonce (this (snd (process_payload env p w))) = received_nonce (this w)
       \<and> filter frees_buffer (trace (snd (process_payload env p w))) = filter frees_buffer (trace w)"
  using assms by (cases p) (simp_all add: Let_def session_defs split: prod.splits)

lemma process_payloads_other_than_nonce:
  assumes "list_all (\<lambda>p. get_type p \<noteq> NONCE) ps"
  shows "received_nonce (this (snd (process_payloads env ps w))) = received_nonce (this w)
       \<and> filter frees_buffer (trace (snd (process_payloads env ps w))) = filter frees_buffer (trace w)"
  using assms
proof (induction ps arbitrary: w)
  case Nil
  show ?case by simp
next
  case (Cons p ps)
  obtain r w1 where step: "process_payload env p w = (r, w1)"
    by (cases "process_payload env p w")
  have one: "received_nonce (this w1) = received_nonce (this w)
      \<and> filter frees_buffer (trace w1) = filter frees_buffer (trace w)"
    using process_payload_other_than_nonce [of p env w] Cons.prems step by simp
  show ?case
  proof (cases r)
    case (Some status)
    with step one show ?thesis by simp
  next
    case None
    with step one Cons.IH [of w1] Cons.prems show ?thesis by simp
  qed
qed

lemma after_payloads_frees:
  "filter frees_buffer (trace (snd (process_message_after_payloads env reply w))) =
     filter frees_buffer (trace w) @ [Allocator_free (ptr (shared_secret (this w)))] @
     (if fst (generated_packet env w) = SUCCESS
         \<and> set_last_requested_message env (built_request w) = SUCCESS
      then [Allocator_free (ptr (sent_nonce (this w))),
            Allocator_free (ptr (received_nonce (this w))),
            Allocator_free (ptr (snd (derived_secret env w)))]
      else [])"
  by (simp add: after_payloads_events)

lemma count_frees_buffer:
  "count_list evs (Allocator_free q) = count_list (filter frees_buffer evs) (Allocator_free q)"
  by (induction evs) auto

lemma two_nonces:
  assumes "list_all (\<lambda>p. get_type p \<noteq> NONCE) (pre @ mid @ post)"
    and "list_all (payload_accepted env) (pre @ mid)"
    and "process_payloads env (pre @ Nonce_payload a # mid @ Nonce_payload b # post) w = (r, x)"
  shows "received_nonce (this x) = b
       \<and> filter frees_buffer (trace x) =
           filter frees_buffer (trace w)
           @ [Allocator_free (ptr (received_nonce (this w))), Allocator_free (ptr a)]"
proof -
  let ?x1 = "snd (process_payloads env pre w)"
  let ?x2 = "snd (process_payload env (Nonce_payload a) ?x1)"
  let ?x3 = "snd (process_payloads env mid ?x2)"
  let ?x4 = "snd (process_payload env (Nonce_payload b) ?x3)"
  have accepted: "list_all (payload_accepted env) pre" "list_all (payload_accepted env) mid"
    using assms(2) by simp_all
  have pre: "process_payloads env pre w = (None, ?x1)"
    using accepted(1) by (rule process_payloads_accepted_world)
  have first: "process_payload env (Nonce_payload a) ?x1 = (None, ?x2)"
    using process_payload_nonce(1) [of env a ?x1]
    by (cases "process_payload env (Nonce_payload a) ?x1") simp
  have mid: "process_payloads env mid ?x2 = (None, ?x3)"
    using accepted(2) by (rule process_payloads_accepted_world)
  have second: "process_payload env (Nonce_payload b) ?x3 = (None, ?x4)"
    using process_payload_nonce(1) [of env b ?x3]
    by (cases "process_payload env (Nonce_payload b) ?x3") simp
  have "process_payloads env (pre @ Nonce_payload a # mid @ Nonce_payload b # post) w =
      process_payloads env (Nonce_payload a # mid @ Nonce_payload b # post) ?x1"
    using pre by (rule process_payloads_passed)
  also have "\<dots> = process_payloads env (mid @ Nonce_payload b # post) ?x2"
    using first by simp
  also have "\<dots> = process_payloads env (Nonce_payload b # post) ?x3"
    using mid by (rule process_payloads_passed)
  also have "\<dots> = process_payloads env post ?x4"
    using second by simp
  finally have "process_payloads env (pre @ Nonce_payload a # mid @ Nonce_payload b # post) w =
      process_payloads env post ?x4" .
  with assms(3) have x: "x = snd (process_payloads env post ?x4)"
    by (metis snd_conv)
  have n1: "received_nonce (this ?x1) = received_nonce (this w)"
    and f1: "filter frees_buffer (trace ?x1) = filter frees_buffer (trace w)"
    using process_payloads_other_than_nonce [of pre env w] assms(1) by simp_all
  have n2: "received_nonce (this ?x2) = a"
    and f2: "filter frees_buffer (trace ?x2) =
        filter frees_buffer (trace w) @ [Allocator_free (ptr (received_nonce (this w)))]"
    using n1 f1 by (simp_all add: process_payload_nonce del: process_payload.simps)
  have n3: "received_nonce (this ?x3) = a"
    and f3: "filter frees_buffer (trace ?x3) = filter frees_buffer (trace ?x2)"
    using process_payloads_other_than_nonce [of mid env ?x2] assms(1) n2 by simp_all
  have n4: "received_nonce (this ?x4) = b"
    and f4: "filter frees_buffer (trace ?x4) = filter frees_buffer (trace ?x3) @ [Allocator_free (ptr a)]"
    using n3 by (simp_all add: process_payload_nonce del: process_payload.simps)
  have n5: "received_nonce (this x) = b"
    and f5: "filter frees_buffer (trace x) = filter frees_buffer (trace ?x4)"
    unfolding x using process_payloads_other_than_nonce [of post env ?x4] assms(1) n4 by simp_all
  show ?thesis
    using n5 unfolding f5 f4 f3 f2 by (simp del: process_payload.simps)
qed



subsection \<open>The order of the key exchange and the nonce payload\<close>

lemma process_payload_data:
  assumes "data w1 = data w2"
  shows "fst (process_payload env p w1) = fst (process_payload env p w2)
       \<and> data (snd (process_payload env p w1)) = data (snd (process_payload env p w2))"
  using assms by (cases p) (simp_all add: data_def Let_def session_defs split: prod.splits)

lemma process_payloads_data:
  assumes "data w1 = data w2"
  shows "fst (process_payloads env ps w1) = fst (process_payloads env ps w2)
       \<and> data (snd (process_payloads env ps w1)) = data (snd (process_payloads env ps w2))"
  using assms
proof (induction ps arbitrary: w1 w2)
  case Nil
  then show ?case by simp
next
  case (Cons p ps)
  obtain r x1 where step1: "process_payload env p w1 = (r, x1)"
    by (cases "process_payload env p w1")
  obtain x2 where step2: "process_payload env p w2 = (r, x2)" and same: "data x1 = data x2"
    using process_payload_data [OF Cons.prems, of env p] step1
    by (cases "process_payload env p w2") simp
  show ?case
  proof (cases r)
    case (Some st)
    show ?thesis
      unfolding process_payloads.simps step1 step2 Some using same by simp
  next
    case None
    show ?thesis
      unfolding process_payloads.simps step1 step2 None using Cons.IH [OF same] by simp
  qed
qed

lemma after_payloads_data:
  assumes "data w1 = data w2"
  shows "fst (process_message_after_payloads env reply1 w1) = fst (process_message_after_payloads env reply2 w2)
       \<and> data (snd (process_message_after_payloads env reply1 w1))
           = data (snd (process_message_after_payloads env reply2 w2))"
proof -
  have fields: "this w1 = this w2" "ike_sa w1 = ike_sa w2" "send_queue w1 = send_queue w2"
    using assms by (simp_all add: data_def)
  have secret: "derived_secret env w1 = derived_secret env w2"
    using fields by (simp add: derived_secret_def)
  have request: "built_request w1 = built_request w2"
    by (rule built_request_cong) (simp add: fields)
  have packet: "generated_packet env w1 = generated_packet env w2"
    using fields secret request by (simp add: generated_packet_def)
  show ?thesis
    unfolding data_def after_payloads_status after_payloads_this after_payloads_send_queue
      after_payloads_ike_sa fields secret request packet
    by simp
qed

text \<open>What a payload does to the session depends on the session only.\<close>

lemma process_payload_ike_sa:
  assumes "ike_sa w1 = ike_sa w2"
  shows "fst (process_payload env p w1) = fst (process_payload env p w2)
       \<and> ike_sa (snd (process_payload env p w1)) = ike_sa (snd (process_payload env p w2))"
  using assms by (cases p) (simp_all add: Let_def session_defs split: prod.splits)

lemma process_payloads_ike_sa:
  assumes "ike_sa w1 = ike_sa w2"
  shows "fst (process_payloads env ps w1) = fst (process_payloads env ps w2)
       \<and> ike_sa (snd (process_payloads env ps w1)) = ike_sa (snd (process_payloads env ps w2))"
  using assms
proof (induction ps arbitrary: w1 w2)
  case Nil
  then show ?case by simp
next
  case (Cons p ps)
  obtain r x1 where step1: "process_payload env p w1 = (r, x1)"
    by (cases "process_payload env p w1")
  obtain x2 where step2: "process_payload env p w2 = (r, x2)" and same: "ike_sa x1 = ike_sa x2"
    using process_payload_ike_sa [OF Cons.prems, of env p] step1
    by (cases "process_payload env p w2") simp
  show ?case
  proof (cases r)
    case (Some st)
    show ?thesis
      unfolding process_payloads.simps step1 step2 Some using same by simp
  next
    case None
    show ?thesis
      unfolding process_payloads.simps step1 step2 None using Cons.IH [OF same] by simp
  qed
qed

text \<open>Only the key exchange and the nonce payload write the state object.\<close>

lemma process_payload_this:
  assumes "get_type p \<noteq> KEY_EXCHANGE \<and> get_type p \<noteq> NONCE"
  shows "this (snd (process_payload env p w)) = this w"
  using assms by (cases p) (simp_all add: Let_def session_defs split: prod.splits)

lemma process_payloads_this:
  assumes "list_all (\<lambda>p. get_type p \<noteq> KEY_EXCHANGE \<and> get_type p \<noteq> NONCE) ps"
  shows "this (snd (process_payloads env ps w)) = this w"
  using assms
proof (induction ps arbitrary: w)
  case Nil
  show ?case by simp
next
  case (Cons p ps)
  obtain r w1 where step: "process_payload env p w = (r, w1)"
    by (cases "process_payload env p w")
  have one: "this w1 = this w"
    using process_payload_this [of p env w] Cons.prems step by simp
  show ?case
  proof (cases r)
    case (Some status)
    with step one show ?thesis by simp
  next
    case None
    with step one Cons.IH [of w1] Cons.prems show ?thesis by simp
  qed
qed

lemma swap_in_loop:
  assumes "list_all (\<lambda>p. get_type p \<noteq> KEY_EXCHANGE \<and> get_type p \<noteq> NONCE) mid"
    and "process_payloads env (pre @ Ke_payload k # mid @ Nonce_payload n # post) w = (ra, a)"
    and "process_payloads env (pre @ Nonce_payload n # mid @ Ke_payload k # post) w = (rb, b)"
  shows "ra = rb \<and> ike_sa a = ike_sa b \<and> (ra = None \<longrightarrow> data a = data b)"
proof -
  obtain r0 x where pre: "process_payloads env pre w = (r0, x)"
    by (cases "process_payloads env pre w")
  have ke: "\<exists>v'. process_payload env (Ke_payload k) v = (None, v')
      \<and> this v' = (this v)\<lparr>diffie_hellman := (diffie_hellman (this v))\<lparr>other_public_value := Some k\<rparr>\<rparr>
      \<and> ike_sa v' = ike_sa v \<and> send_queue v' = send_queue v" for v
    by (simp add: Let_def session_defs)
  have no: "\<exists>v'. process_payload env (Nonce_payload n) v = (None, v')
      \<and> this v' = (this v)\<lparr>received_nonce := n\<rparr>
      \<and> ike_sa v' = ike_sa v \<and> send_queue v' = send_queue v" for v
    by (simp add: Let_def)
  show ?thesis
  proof (cases r0)
    case (Some st)
    with pre have "process_payloads env (pre @ rest) w = (Some st, x)" for rest
      by (simp add: process_payloads_append)
    with assms(2,3) have "(ra, a) = (Some st, x)" and "(rb, b) = (Some st, x)"
      by simp_all
    then show ?thesis
      by simp
  next
    case None
    obtain xk where xk: "process_payload env (Ke_payload k) x = (None, xk)"
      "this xk = (this x)\<lparr>diffie_hellman := (diffie_hellman (this x))\<lparr>other_public_value := Some k\<rparr>\<rparr>"
      "ike_sa xk = ike_sa x" "send_queue xk = send_queue x"
      using ke [of x] by blast
    obtain xn where xn: "process_payload env (Nonce_payload n) x = (None, xn)"
      "this xn = (this x)\<lparr>received_nonce := n\<rparr>"
      "ike_sa xn = ike_sa x" "send_queue xn = send_queue x"
      using no [of x] by blast
    obtain r1 y1 where mid1: "process_payloads env mid xk = (r1, y1)"
      by (cases "process_payloads env mid xk")
    obtain r2 y2 where mid2: "process_payloads env mid xn = (r2, y2)"
      by (cases "process_payloads env mid xn")
    have "ike_sa xk = ike_sa xn"
      by (simp only: xk xn)
    from process_payloads_ike_sa [OF this, of env mid]
    have same: "r2 = r1" "ike_sa y1 = ike_sa y2"
      using mid1 mid2 by simp_all
    have this1: "this y1 = this xk" and this2: "this y2 = this xn"
      using process_payloads_this [OF assms(1), of env xk] process_payloads_this [OF assms(1), of env xn]
      unfolding mid1 mid2 by simp_all
    have queue: "send_queue y1 = send_queue y2"
      using process_payloads_frame(1) [of env mid xk] process_payloads_frame(1) [of env mid xn]
      unfolding mid1 mid2 by (simp add: xk xn)
    have "process_payloads env (pre @ Ke_payload k # mid @ Nonce_payload n # post) w =
        process_payloads env (Ke_payload k # mid @ Nonce_payload n # post) x"
      using pre [unfolded None] by (rule process_payloads_passed)
    also have "\<dots> = process_payloads env (mid @ Nonce_payload n # post) xk"
      unfolding process_payloads.simps xk(1) by simp
    finally have a: "process_payloads env (mid @ Nonce_payload n # post) xk = (ra, a)"
      using assms(2) by simp
    have "process_payloads env (pre @ Nonce_payload n # mid @ Ke_payload k # post) w =
        process_payloads env (Nonce_payload n # mid @ Ke_payload k # post) x"
      using pre [unfolded None] by (rule process_payloads_passed)
    also have "\<dots> = process_payloads env (mid @ Ke_payload k # post) xn"
      unfolding process_payloads.simps xn(1) by simp
    finally have b: "process_payloads env (mid @ Ke_payload k # post) xn = (rb, b)"
      using assms(3) by simp
    show ?thesis
    proof (cases r1)
      case (Some st)
      have "process_payloads env (mid @ rest) xk = (Some st, y1)" for rest
        unfolding process_payloads_append mid1 Some by simp
      with a have "(ra, a) = (Some st, y1)"
        by simp
      moreover have "process_payloads env (mid @ rest) xn = (Some st, y2)" for rest
        unfolding process_payloads_append mid2 same(1) Some by simp
      with b have "(rb, b) = (Some st, y2)"
        by simp
      ultimately show ?thesis
        using same(2) by simp
    next
      case completed: None
      obtain z1 where z1: "process_payload env (Nonce_payload n) y1 = (None, z1)"
        "this z1 = (this y1)\<lparr>received_nonce := n\<rparr>"
        "ike_sa z1 = ike_sa y1" "send_queue z1 = send_queue y1"
        using no [of y1] by blast
      obtain z2 where z2: "process_payload env (Ke_payload k) y2 = (None, z2)"
        "this z2 = (this y2)\<lparr>diffie_hellman := (diffie_hellman (this y2))\<lparr>other_public_value := Some k\<rparr>\<rparr>"
        "ike_sa z2 = ike_sa y2" "send_queue z2 = send_queue y2"
        using ke [of y2] by blast
      have "process_payloads env (mid @ Nonce_payload n # post) xk =
          process_payloads env (Nonce_payload n # post) y1"
        using mid1 [unfolded completed] by (rule process_payloads_passed)
      also have "\<dots> = process_payloads env post z1"
        unfolding process_payloads.simps z1(1) by simp
      finally have a': "process_payloads env post z1 = (ra, a)"
        using a by simp
      have "process_payloads env (mid @ Ke_payload k # post) xn =
          process_payloads env (Ke_payload k # post) y2"
        using mid2 [unfolded same(1) completed] by (rule process_payloads_passed)
      also have "\<dots> = process_payloads env post z2"
        unfolding process_payloads.simps z2(1) by simp
      finally have b': "process_payloads env post z2 = (rb, b)"
        using b by simp
      have "this z1 = this z2"
        unfolding z1 z2 this1 this2 xk xn by simp
      moreover have "ike_sa z1 = ike_sa z2"
        unfolding z1 z2 by (rule same(2))
      moreover have "send_queue z1 = send_queue z2"
        unfolding z1 z2 by (rule queue)
      ultimately have "data z1 = data z2"
        by (simp only: data_def)
      from process_payloads_data [OF this, of env post]
      have "ra = rb" "data a = data b"
        unfolding a' b' by simp_all
      then show ?thesis
        by (simp add: data_def)
    qed
  qed
qed

text \<open>
  C8. Two messages that differ only in the places of one KE payload and one NONCE
  payload, with no other KE or NONCE payload between the two places, and that
  both parse with the same status. Run from the same world, they end with the
  same status, the same shared secret in the state object and the same session:
  in particular with the same key material from \<^verbatim>\<open>compute_secrets\<close>.
\<close>

theorem C8_order_of_ke_and_nonce:
  assumes "get_payloads reply = pre @ Ke_payload key_exchange_data # mid @ Nonce_payload nonce # post"
    and "swapped = reply\<lparr>get_payloads := pre @ Nonce_payload nonce # mid @ Ke_payload key_exchange_data # post\<rparr>"
    and "list_all (\<lambda>p. get_type p \<noteq> KEY_EXCHANGE \<and> get_type p \<noteq> NONCE) mid"
    and "parse_body env swapped = parse_body env reply"
  shows "fst (process_message env swapped w) = fst (process_message env reply w)
       \<and> shared_secret (this (snd (process_message env swapped w)))
           = shared_secret (this (snd (process_message env reply w)))
       \<and> secrets (ike_sa (snd (process_message env swapped w)))
           = secrets (ike_sa (snd (process_message env reply w)))
       \<and> ike_sa (snd (process_message env swapped w)) = ike_sa (snd (process_message env reply w))"
proof (cases "get_exchange_type reply = IKE_SA_INIT \<and> \<not> get_request reply
    \<and> parse_body env reply = SUCCESS")
  case False
  then show ?thesis
    using assms(2,4) by (auto simp add: process_message_def Let_def)
next
  case True
  then have checked: "get_exchange_type reply = IKE_SA_INIT" "\<not> get_request reply"
    "parse_body env reply = SUCCESS"
    by simp_all
  have checked': "get_exchange_type swapped = IKE_SA_INIT" "\<not> get_request swapped"
    "parse_body env swapped = SUCCESS"
    using checked assms(2,4) by simp_all
  let ?W = "start_of_loop reply w"
  have start: "start_of_loop swapped w = ?W"
    using assms(2) by (simp add: start_of_loop_def)
  obtain ra a where loop:
    "process_payloads env (pre @ Ke_payload key_exchange_data # mid @ Nonce_payload nonce # post) ?W = (ra, a)"
    by (cases "process_payloads env
        (pre @ Ke_payload key_exchange_data # mid @ Nonce_payload nonce # post) ?W")
  obtain rb b where loop':
    "process_payloads env (pre @ Nonce_payload nonce # mid @ Ke_payload key_exchange_data # post) ?W = (rb, b)"
    by (cases "process_payloads env
        (pre @ Nonce_payload nonce # mid @ Ke_payload key_exchange_data # post) ?W")
  have same: "ra = rb" "ike_sa a = ike_sa b" "ra = None \<longrightarrow> data a = data b"
    using swap_in_loop [OF assms(3) loop loop'] by simp_all
  have kept: "shared_secret (this a) = shared_secret (this b)"
    using process_payloads_frame(2)
        [of env "pre @ Ke_payload key_exchange_data # mid @ Nonce_payload nonce # post" ?W]
      process_payloads_frame(2)
        [of env "pre @ Nonce_payload nonce # mid @ Ke_payload key_exchange_data # post" ?W]
      loop loop'
    by simp
  have run: "process_message env reply w =
      (case ra of Some status \<Rightarrow> (status, a) | None \<Rightarrow> process_message_after_payloads env reply a)"
    unfolding process_message_checked [OF checked] assms(1) loop
    by (simp split: option.splits)
  have payloads': "get_payloads swapped =
      pre @ Nonce_payload nonce # mid @ Ke_payload key_exchange_data # post"
    using assms(2) by simp
  have run': "process_message env swapped w =
      (case ra of Some status \<Rightarrow> (status, b) | None \<Rightarrow> process_message_after_payloads env swapped b)"
    unfolding process_message_checked [OF checked'] start payloads' loop' same(1)
    by (simp split: option.splits)
  show ?thesis
  proof (cases ra)
    case (Some st)
    then show ?thesis
      unfolding run run' using same(2) kept by simp
  next
    case None
    with same(3) have "data b = data a"
      by simp
    from after_payloads_data [OF this, of env swapped reply]
    show ?thesis
      unfolding run run' None by (simp add: data_def)
  qed
qed

theorem C8_witness:
  "get_payloads valid_reply = [Sa_payload SUCCESS [proposal_a]] @ Ke_payload ke_data # [] @ Nonce_payload nonce_r # []
   \<and> list_all (\<lambda>p. get_type p \<noteq> KEY_EXCHANGE \<and> get_type p \<noteq> NONCE) []
   \<and> parse_body env_ok (reply_with [Sa_payload SUCCESS [proposal_a], Nonce_payload nonce_r, Ke_payload ke_data])
       = parse_body env_ok valid_reply
   \<and> fst (process_message env_ok
            (reply_with [Sa_payload SUCCESS [proposal_a], Nonce_payload nonce_r, Ke_payload ke_data])
            initial_world) = SUCCESS
   \<and> shared_secret (this (snd (process_message env_ok
            (reply_with [Sa_payload SUCCESS [proposal_a], Nonce_payload nonce_r, Ke_payload ke_data])
            initial_world))) = secret_ir
   \<and> secrets (ike_sa (snd (process_message env_ok
            (reply_with [Sa_payload SUCCESS [proposal_a], Nonce_payload nonce_r, Ke_payload ke_data])
            initial_world))) = Some (secret_ir, nonce_i, nonce_r)"
proof -
  let ?swapped = "reply_with [Sa_payload SUCCESS [proposal_a], Nonce_payload nonce_r, Ke_payload ke_data]"
  have h: "get_payloads valid_reply =
      [Sa_payload SUCCESS [proposal_a]] @ Ke_payload ke_data # [] @ Nonce_payload nonce_r # []"
    "?swapped = valid_reply\<lparr>get_payloads :=
      [Sa_payload SUCCESS [proposal_a]] @ Nonce_payload nonce_r # [] @ Ke_payload ke_data # []\<rparr>"
    "list_all (\<lambda>p. get_type p \<noteq> KEY_EXCHANGE \<and> get_type p \<noteq> NONCE) []"
    "parse_body env_ok ?swapped = parse_body env_ok valid_reply"
    by (simp_all add: valid_reply_def reply_with_def env_ok_def)
  have "fst (process_message env_ok valid_reply initial_world) = SUCCESS"
    and "shared_secret (this (snd (process_message env_ok valid_reply initial_world))) = secret_ir"
    and "secrets (ike_sa (snd (process_message env_ok valid_reply initial_world)))
           = Some (secret_ir, nonce_i, nonce_r)"
    by (simp_all add: run_defs example_defs Let_def)
  then show ?thesis
    using h(1,3,4) C8_order_of_ke_and_nonce [OF h, of initial_world]
    by simp
qed

end
